theory Spec2Isabelle
  imports Complex_Main
begin

section \<open>Kohonen self-organising map (kohonen.py)\<close>

text \<open>
  The embedding follows \<^verbatim>\<open>src/kohonen.py\<close>. numpy's float64 numbers are idealised
  as real numbers: \<^verbatim>\<open>numpy.linalg.norm\<close> is the square root of the sum of
  squares and \<^verbatim>\<open>numpy.exp\<close> is the real exponential. Rounding, overflow, NaN and the
  signed infinities of IEEE arithmetic are outside this model; in particular the model
  of \<^verbatim>\<open>Neuron.learn\<close> speaks for the code only where \<^verbatim>\<open>sigma\<close> is not zero. Where a
  property depends on rounding, the two averaging metrics are given a second time with
  every arithmetic operation rounded to binary64.

  Every numpy vector that the code touches has been flattened (\<^verbatim>\<open>w.flatten()\<close>,
  \<^verbatim>\<open>x.flatten()\<close>), so a vector is a list of reals. Python exceptions are values
  of the type \<open>error\<close>.
\<close>

subsection \<open>Exceptions and numpy primitives\<close>

datatype error = ValueError | IndexError | ZeroDivisionError

text \<open>
  Element-wise binary operation on two one-dimensional arrays with numpy's
  broadcasting: equal lengths combine position by position, an array of length one is
  stretched to the other's length, everything else raises \<^verbatim>\<open>ValueError\<close>.
\<close>

definition broadcast ::
  "(real \<Rightarrow> real \<Rightarrow> real) \<Rightarrow> real list \<Rightarrow> real list \<Rightarrow> error + real list" where
  "broadcast f a b =
     (if length a = length b then Inr (map2 f a b)
      else if length a = 1 then Inr (map (f (hd a)) b)
      else if length b = 1 then Inr (map (\<lambda>u. f u (hd b)) a)
      else Inl ValueError)"

text \<open>
  \<^verbatim>\<open>dst[:] = src\<close>: the source is broadcast to the shape of the destination, whose
  length never changes.
\<close>

definition assign_slice :: "real list \<Rightarrow> real list \<Rightarrow> error + real list" where
  "assign_slice dst src =
     (if length src = length dst then Inr src
      else if length src = 1 then Inr (replicate (length dst) (hd src))
      else Inl ValueError)"

definition linalg_norm :: "real list \<Rightarrow> real" where
  "linalg_norm v = sqrt (\<Sum>t\<leftarrow>v. t * t)"

subsection \<open>class Neuron\<close>

record Neuron =
  weights :: "real list"
  posx :: int
  posy :: int
  y :: real

definition Neuron_init :: "real list \<Rightarrow> int \<Rightarrow> int \<Rightarrow> Neuron" where
  "Neuron_init w px py = \<lparr>weights = w, posx = px, posy = py, y = 0\<rparr>"

text \<open>
  \<^verbatim>\<open>self.y = numpy.linalg.norm(self.weights - x.flatten())\<close>. The subtraction raises
  before anything is stored. The method has no \<^verbatim>\<open>return\<close>; its result is the
  updated neuron.
\<close>

definition Neuron_compute :: "Neuron \<Rightarrow> real list \<Rightarrow> error + Neuron" where
  "Neuron_compute self x =
     (case broadcast (-) (weights self) x of
        Inl e \<Rightarrow> Inl e
      | Inr d \<Rightarrow> Inr (self\<lparr>y := linalg_norm d\<rparr>))"

text \<open>
  \<^verbatim>\<open>dist = (self.posx - posxjetoile)**2 + (self.posy - posyjetoile)**2\<close>,
  \<^verbatim>\<open>h = numpy.exp(-dist / (2 * sigma * sigma))\<close>,
  \<^verbatim>\<open>self.weights[:] = self.weights[:] + eta * h * (x.flatten() - self.weights)\<close>.
  All three array operations may raise, and they do so before the in-place assignment.
\<close>

definition Neuron_learn ::
  "Neuron \<Rightarrow> real \<Rightarrow> real \<Rightarrow> int \<Rightarrow> int \<Rightarrow> real list \<Rightarrow> error + Neuron" where
  "Neuron_learn self eta sigma posxjetoile posyjetoile x =
     (let dist = (posx self - posxjetoile)\<^sup>2 + (posy self - posyjetoile)\<^sup>2;
          h = exp (- real_of_int dist / (2 * sigma * sigma))
      in case broadcast (-) x (weights self) of
           Inl e \<Rightarrow> Inl e
         | Inr d \<Rightarrow>
            (case broadcast (+) (weights self) (map (\<lambda>t. eta * h * t) d) of
               Inl e \<Rightarrow> Inl e
             | Inr r \<Rightarrow>
                (case assign_slice (weights self) r of
                   Inl e \<Rightarrow> Inl e
                 | Inr w' \<Rightarrow> Inr (self\<lparr>weights := w'\<rparr>))))"

subsection \<open>Loops that an exception can leave\<close>

text \<open>
  A \<^verbatim>\<open>for\<close> loop whose body may raise: the body returns the state it reached and the
  exception, if any; the loop stops at the first exception and keeps the state reached
  so far, as the mutated Python objects do.
\<close>

fun foreach :: "'a list \<Rightarrow> ('a \<Rightarrow> 's \<Rightarrow> 's \<times> error option) \<Rightarrow> 's \<Rightarrow> 's \<times> error option" where
  "foreach [] body s = (s, None)"
| "foreach (a # as) body s =
     (case body a s of
        (s', None) \<Rightarrow> foreach as body s'
      | (s', Some e) \<Rightarrow> (s', Some e))"

subsection \<open>class SOM\<close>

text \<open>
  \<^verbatim>\<open>self.map\<close> is the field \<open>som_map\<close>. \<^verbatim>\<open>self.weightsmap\<close> holds, cell by cell, the
  very array object of the neuron (\<^verbatim>\<open>wmline.append(neuron.weights)\<close>), which
  \<^verbatim>\<open>Neuron.learn\<close> updates in place (\<^verbatim>\<open>self.weights[:] = ...\<close>) and nothing ever
  rebinds; it is therefore the projection \<open>weightsmap\<close> of \<open>som_map\<close>.
  \<^verbatim>\<open>self.activitymap\<close> is a separate array of copies and is a field.
\<close>

record SOM =
  inputsize :: "nat list"
  gridsize :: "nat \<times> nat"
  som_map :: "Neuron list list"
  activitymap :: "real list list"

definition weightsmap :: "SOM \<Rightarrow> real list list list" where
  "weightsmap self = map (map weights) (som_map self)"

text \<open>
  The constructor. \<open>random px py\<close> is the flattened array that
  \<^verbatim>\<open>numpy.random.random(self.inputsize)\<close> yields for the neuron at that position.
\<close>

definition SOM_init_line ::
  "(nat \<Rightarrow> nat \<Rightarrow> real list) \<Rightarrow> nat \<Rightarrow> nat \<Rightarrow> Neuron list \<times> real list" where
  "SOM_init_line random width px =
     fold (\<lambda>posy (mline, amline).
             let neuron = Neuron_init (random px posy) (int px) (int posy)
             in (mline @ [neuron], amline @ [y neuron]))
          [0..<width] ([], [])"

definition SOM_init :: "nat list \<Rightarrow> nat \<times> nat \<Rightarrow> (nat \<Rightarrow> nat \<Rightarrow> real list) \<Rightarrow> SOM" where
  "SOM_init insize gsize random =
     (let (m, am) =
            fold (\<lambda>posx (m, am).
                    let (mline, amline) = SOM_init_line random (snd gsize) posx
                    in (m @ [mline], am @ [amline]))
                 [0..<fst gsize] ([], [])
      in \<lparr>inputsize = insize, gridsize = gsize, som_map = m, activitymap = am\<rparr>)"

text \<open>
  The body of the two loops of \<^verbatim>\<open>SOM.compute\<close>:
  \<^verbatim>\<open>self.map[posx][posy].compute(x)\<close>, then
  \<^verbatim>\<open>self.activitymap[posx][posy] = self.map[posx][posy].y\<close>.
\<close>

definition compute_cell :: "real list \<Rightarrow> nat \<Rightarrow> nat \<Rightarrow> SOM \<Rightarrow> SOM \<times> error option" where
  "compute_cell x px py self =
     (if px < length (som_map self) \<and> py < length (som_map self ! px) then
        (case Neuron_compute (som_map self ! px ! py) x of
           Inl e \<Rightarrow> (self, Some e)
         | Inr n \<Rightarrow>
            (let s1 = self\<lparr>som_map := (som_map self)[px := (som_map self ! px)[py := n]]\<rparr>
             in if px < length (activitymap s1) \<and> py < length (activitymap s1 ! px)
                then (s1\<lparr>activitymap :=
                           (activitymap s1)[px := (activitymap s1 ! px)[py := y n]]\<rparr>,
                      None)
                else (s1, Some IndexError)))
      else (self, Some IndexError))"

definition SOM_compute :: "SOM \<Rightarrow> real list \<Rightarrow> SOM \<times> error option" where
  "SOM_compute self x =
     foreach [0..<fst (gridsize self)]
       (\<lambda>posx. foreach [0..<snd (gridsize self)] (\<lambda>posy. compute_cell x posx posy))
       self"

text \<open>
  \<^verbatim>\<open>numpy.argmin\<close> of the flattened (row-major) array: the index of the first
  occurrence of the minimum; an empty array raises.
\<close>

fun argmin_scan :: "real list \<Rightarrow> nat \<Rightarrow> nat \<Rightarrow> real \<Rightarrow> nat" where
  "argmin_scan [] i best bv = best"
| "argmin_scan (v # vs) i best bv =
     (if v < bv then argmin_scan vs (Suc i) i v else argmin_scan vs (Suc i) best bv)"

definition argmin :: "real list \<Rightarrow> error + nat" where
  "argmin vs = (case vs of [] \<Rightarrow> Inl ValueError | v # rest \<Rightarrow> Inr (argmin_scan rest 1 0 v))"

definition unravel_index :: "nat \<Rightarrow> nat \<times> nat \<Rightarrow> error + nat \<times> nat" where
  "unravel_index k shape =
     (if k < fst shape * snd shape then Inr (k div snd shape, k mod snd shape)
      else Inl ValueError)"

text \<open>
  The first statement of \<^verbatim>\<open>SOM.learn\<close>:
  \<^verbatim>\<open>numpy.unravel_index(numpy.argmin(self.activitymap), self.gridsize)\<close>.
\<close>

definition learn_bmu :: "SOM \<Rightarrow> error + nat \<times> nat" where
  "learn_bmu self =
     (case argmin (concat (activitymap self)) of
        Inl e \<Rightarrow> Inl e
      | Inr k \<Rightarrow> unravel_index k (gridsize self))"

definition learn_cell ::
  "real \<Rightarrow> real \<Rightarrow> nat \<Rightarrow> nat \<Rightarrow> real list \<Rightarrow> nat \<Rightarrow> nat \<Rightarrow> SOM \<Rightarrow> SOM \<times> error option" where
  "learn_cell eta sigma jetoilex jetoiley x px py self =
     (if px < length (som_map self) \<and> py < length (som_map self ! px) then
        (case Neuron_learn (som_map self ! px ! py) eta sigma
                (int jetoilex) (int jetoiley) x of
           Inl e \<Rightarrow> (self, Some e)
         | Inr n \<Rightarrow>
            (self\<lparr>som_map := (som_map self)[px := (som_map self ! px)[py := n]]\<rparr>,
             None))
      else (self, Some IndexError))"

definition SOM_learn :: "SOM \<Rightarrow> real \<Rightarrow> real \<Rightarrow> real list \<Rightarrow> SOM \<times> error option" where
  "SOM_learn self eta sigma x =
     (case learn_bmu self of
        Inl e \<Rightarrow> (self, Some e)
      | Inr (jetoilex, jetoiley) \<Rightarrow>
          foreach [0..<fst (gridsize self)]
            (\<lambda>posx. foreach [0..<snd (gridsize self)]
                      (\<lambda>posy. learn_cell eta sigma jetoilex jetoiley x posx posy))
            self)"

text \<open>
  \<^verbatim>\<open>numpy.min\<close> of an array (it raises on an empty one), and the true division
  \<^verbatim>\<open>s/nsamples\<close> of \<^verbatim>\<open>SOM.quantification\<close>. When \<^verbatim>\<open>nsamples\<close> is zero the loop has not
  run, \<^verbatim>\<open>s\<close> is still the Python integer \<^verbatim>\<open>0\<close>, and dividing two Python integers by
  zero raises \<^verbatim>\<open>ZeroDivisionError\<close>.
\<close>

definition np_min :: "real list list \<Rightarrow> error + real" where
  "np_min a = (case concat a of [] \<Rightarrow> Inl ValueError | v # vs \<Rightarrow> Inr (fold min vs v))"

definition py_div :: "real \<Rightarrow> nat \<Rightarrow> error + real" where
  "py_div a n = (if n = 0 then Inl ZeroDivisionError else Inr (a / real n))"

definition quantification_step :: "real list \<Rightarrow> SOM \<times> real \<Rightarrow> (SOM \<times> real) \<times> error option" where
  "quantification_step x st =
     (case SOM_compute (fst st) x of
        (s1, Some e) \<Rightarrow> ((s1, snd st), Some e)
      | (s1, None) \<Rightarrow>
          (case np_min (activitymap s1) of
             Inl e \<Rightarrow> ((s1, snd st), Some e)
           | Inr m \<Rightarrow> ((s1, snd st + m\<^sup>2), None)))"

definition SOM_quantification :: "SOM \<Rightarrow> real list list \<Rightarrow> SOM \<times> (error + real)" where
  "SOM_quantification self X =
     (let nsamples = length X
      in case foreach X quantification_step (self, 0) of
           ((s1, s), Some e) \<Rightarrow> (s1, Inl e)
         | ((s1, s), None) \<Rightarrow> (s1, py_div s nsamples))"

subsection \<open>The training loop\<close>

text \<open>
  The loop of the main program,
  \<^verbatim>\<open>for i in range(N+1): index = numpy.random.randint(nsamples); x = samples[index].flatten();
  network.compute(x); network.learn(ETA,SIGMA,x)\<close>, without its display code, which only
  reads the map. The state is the map together with the number of samples drawn so
  far; \<open>randint k\<close> is the number that the generator yields at its \<open>k\<close>-th call,
  reduced to the range below \<^verbatim>\<open>nsamples\<close>. \<^verbatim>\<open>numpy.random.randint(0)\<close> raises
  \<^verbatim>\<open>ValueError\<close>. The constants \<^verbatim>\<open>ETA\<close> and \<^verbatim>\<open>SIGMA\<close> are the parameters \<open>eta\<close>
  and \<open>sigma\<close>.
\<close>

definition train_step ::
  "real \<Rightarrow> real \<Rightarrow> real list list \<Rightarrow> nat \<Rightarrow> (nat \<Rightarrow> nat) \<Rightarrow> nat \<Rightarrow> SOM \<times> nat
     \<Rightarrow> (SOM \<times> nat) \<times> error option" where
  "train_step eta sigma samples nsamples randint i st =
     (if nsamples = 0 then (st, Some ValueError)
      else
        let index = randint (snd st) mod nsamples;
            drawn = Suc (snd st)
        in if index < length samples then
             (let x = samples ! index
              in case SOM_compute (fst st) x of
                   (n1, Some e) \<Rightarrow> ((n1, drawn), Some e)
                 | (n1, None) \<Rightarrow>
                     (case SOM_learn n1 eta sigma x of (n2, r) \<Rightarrow> ((n2, drawn), r)))
           else ((fst st, drawn), Some IndexError))"

definition train ::
  "nat \<Rightarrow> real \<Rightarrow> real \<Rightarrow> real list list \<Rightarrow> nat \<Rightarrow> (nat \<Rightarrow> nat) \<Rightarrow> SOM
     \<Rightarrow> (SOM \<times> nat) \<times> error option" where
  "train N eta sigma samples nsamples randint network =
     foreach [0..<N + 1] (train_step eta sigma samples nsamples randint) (network, 0)"

subsection \<open>Metrics\<close>

text \<open>
  \<^verbatim>\<open>numpy.linalg.norm(a - b)**2\<close> for two cells of the three-dimensional array
  \<^verbatim>\<open>numpy.array(network.weightsmap)\<close>. All cells of such an array have the same length,
  so this subtraction never raises.
\<close>

definition dist_sq :: "real list \<Rightarrow> real list \<Rightarrow> real" where
  "dist_sq a b = (linalg_norm (map2 (-) a b))\<^sup>2"

text \<open>
  The two loops of \<^verbatim>\<open>distorsion_locale_moyenne\<close>, which leave \<^verbatim>\<open>total\<close> and
  \<^verbatim>\<open>count\<close>. The reads \<^verbatim>\<open>w[i][j]\<close>, \<^verbatim>\<open>w[i+1][j]\<close> and \<^verbatim>\<open>w[i][j+1]\<close> are within the
  array on every map of shape \<open>gridsize\<close>.
\<close>

definition distorsion_sums :: "SOM \<Rightarrow> real \<times> nat" where
  "distorsion_sums network =
     (let w = weightsmap network
      in fold (\<lambda>i. fold (\<lambda>j (total, count).
                 let current = w ! i ! j;
                     (total, count) =
                       (if i + 1 < fst (gridsize network)
                        then (total + dist_sq current (w ! (i + 1) ! j), count + 1)
                        else (total, count));
                     (total, count) =
                       (if j + 1 < snd (gridsize network)
                        then (total + dist_sq current (w ! i ! (j + 1)), count + 1)
                        else (total, count))
                 in (total, count))
               [0..<snd (gridsize network)])
           [0..<fst (gridsize network)] (0, 0))"

text \<open>
  \<^verbatim>\<open>return total / count\<close>: when no edge was counted both are the Python integer
  \<^verbatim>\<open>0\<close> and the division raises.
\<close>

definition distorsion_locale_moyenne :: "SOM \<Rightarrow> error + real" where
  "distorsion_locale_moyenne network =
     (let (total, count) = distorsion_sums network in py_div total count)"

text \<open>
  \<^verbatim>\<open>compute_local_roughness(weight_grid)\<close> takes an array of shape
  \<^verbatim>\<open>(height, width, dim)\<close>, here a list of \<open>height\<close> rows of \<open>width\<close> cells. The
  main program passes \<^verbatim>\<open>numpy.array(network.weightsmap)\<close>, which has three dimensions
  when the map has at least one unit.
\<close>

definition neighbors ::
  "real list list list \<Rightarrow> nat \<Rightarrow> nat \<Rightarrow> nat \<Rightarrow> nat \<Rightarrow> real list list" where
  "neighbors weight_grid height width i j =
     (if i > 0 then [weight_grid ! (i - 1) ! j] else [])
     @ (if i < height - 1 then [weight_grid ! (i + 1) ! j] else [])
     @ (if j > 0 then [weight_grid ! i ! (j - 1)] else [])
     @ (if j < width - 1 then [weight_grid ! i ! (j + 1)] else [])"

definition roughness_sums :: "real list list list \<Rightarrow> real \<times> nat" where
  "roughness_sums weight_grid =
     (let height = length weight_grid;
          width = (case weight_grid of [] \<Rightarrow> 0 | r # _ \<Rightarrow> length r)
      in fold (\<lambda>i. fold (\<lambda>j (total_roughness, count).
                 let w_ij = weight_grid ! i ! j
                 in fold (\<lambda>w_neighbor (total_roughness, count).
                            (total_roughness + dist_sq w_ij w_neighbor, count + 1))
                      (neighbors weight_grid height width i j)
                      (total_roughness, count))
               [0..<width])
           [0..<height] (0, 0))"

definition compute_local_roughness :: "real list list list \<Rightarrow> real" where
  "compute_local_roughness weight_grid =
     (let (total_roughness, count) = roughness_sums weight_grid
      in if count > 0 then total_roughness / real count else 0)"

text \<open>
  \<^verbatim>\<open>carte_de_chaleur_distorsion\<close> fills the array \<^verbatim>\<open>heatmap\<close> and hands it to the
  plotting library; the model returns the array. \<open>heat_cell\<close> is the body of its loops
  up to the value stored in \<^verbatim>\<open>heatmap[i][j]\<close>.
\<close>

definition heat_cell :: "real list list list \<Rightarrow> nat \<times> nat \<Rightarrow> nat \<Rightarrow> nat \<Rightarrow> real" where
  "heat_cell w gsize i j =
     (let (dist, count) = (0, 0 :: nat);
          (dist, count) =
            (if i > 0 then (dist + dist_sq (w ! i ! j) (w ! (i - 1) ! j), count + 1)
             else (dist, count));
          (dist, count) =
            (if i < fst gsize - 1 then (dist + dist_sq (w ! i ! j) (w ! (i + 1) ! j), count + 1)
             else (dist, count));
          (dist, count) =
            (if j > 0 then (dist + dist_sq (w ! i ! j) (w ! i ! (j - 1)), count + 1)
             else (dist, count));
          (dist, count) =
            (if j < snd gsize - 1 then (dist + dist_sq (w ! i ! j) (w ! i ! (j + 1)), count + 1)
             else (dist, count))
      in if count > 0 then dist / real count else 0)"

definition carte_de_chaleur_distorsion :: "SOM \<Rightarrow> real list list" where
  "carte_de_chaleur_distorsion network =
     (let w = weightsmap network;
          heatmap = replicate (fst (gridsize network)) (replicate (snd (gridsize network)) 0)
      in fold (\<lambda>i. fold (\<lambda>j heatmap.
                 heatmap[i := (heatmap ! i)[j := heat_cell w (gridsize network) i j]])
               [0..<snd (gridsize network)])
           [0..<fst (gridsize network)] heatmap)"

text \<open>
  The edges of a grid as the specification counts them: every unit with its bottom
  neighbour and every unit with its right neighbour.
\<close>

definition edges :: "nat \<Rightarrow> nat \<Rightarrow> ((nat \<times> nat) \<times> (nat \<times> nat)) list" where
  "edges h w =
     map (\<lambda>(i, j). ((i, j), (i + 1, j))) (List.product [0..<h - 1] [0..<w])
     @ map (\<lambda>(i, j). ((i, j), (i, j + 1))) (List.product [0..<h] [0..<w - 1])"

definition edge_dist_sq :: "real list list list \<Rightarrow> (nat \<times> nat) \<times> (nat \<times> nat) \<Rightarrow> real" where
  "edge_dist_sq w e = dist_sq (w ! fst (fst e) ! snd (fst e)) (w ! fst (snd e) ! snd (snd e))"

subsection \<open>The metrics in binary64 arithmetic\<close>

text \<open>
  Rounding of a real number to the nearest integer, ties to the even one, and to the
  nearest binary64 number (a significand of 53 bits, ties to the even significand).
  The exponent is not bounded: overflow and subnormal numbers are not modelled.
\<close>

definition round_even :: "real \<Rightarrow> int" where
  "round_even r =
     (let f = \<lfloor>r\<rfloor>
      in if r - of_int f < 1 / 2 then f
         else if 1 / 2 < r - of_int f then f + 1
         else if even f then f else f + 1)"

definition f64 :: "real \<Rightarrow> real" where
  "f64 x =
     (if x = 0 then 0
      else let u = 2 powi (\<lfloor>log 2 \<bar>x\<bar>\<rfloor> - 52)
           in of_int (round_even (x / u)) * u)"

text \<open>
  \<^verbatim>\<open>numpy.linalg.norm(a - b)**2\<close> with every operation rounded: the element-wise
  subtraction, the products and the sums of the dot product \<^verbatim>\<open>x.dot(x)\<close>, the square
  root and the square. The order in which the library adds the products of a longer
  vector is its own; for a vector of length one there is one product and no sum.
\<close>

definition linalg_norm_f64 :: "real list \<Rightarrow> real" where
  "linalg_norm_f64 v = f64 (sqrt (fold (\<lambda>t acc. f64 (acc + f64 (t * t))) v 0))"

definition dist_sq_f64 :: "real list \<Rightarrow> real list \<Rightarrow> real" where
  "dist_sq_f64 a b = f64 ((linalg_norm_f64 (map2 (\<lambda>u v. f64 (u - v)) a b))\<^sup>2)"

text \<open>
  \<^verbatim>\<open>distorsion_locale_moyenne\<close> and \<^verbatim>\<open>compute_local_roughness\<close> as above, with
  \<^verbatim>\<open>total += ...\<close> and the final division rounded.
\<close>

definition distorsion_sums_f64 :: "SOM \<Rightarrow> real \<times> nat" where
  "distorsion_sums_f64 network =
     (let w = weightsmap network
      in fold (\<lambda>i. fold (\<lambda>j (total, count).
                 let current = w ! i ! j;
                     (total, count) =
                       (if i + 1 < fst (gridsize network)
                        then (f64 (total + dist_sq_f64 current (w ! (i + 1) ! j)), count + 1)
                        else (total, count));
                     (total, count) =
                       (if j + 1 < snd (gridsize network)
                        then (f64 (total + dist_sq_f64 current (w ! i ! (j + 1))), count + 1)
                        else (total, count))
                 in (total, count))
               [0..<snd (gridsize network)])
           [0..<fst (gridsize network)] (0, 0))"

definition distorsion_locale_moyenne_f64 :: "SOM \<Rightarrow> error + real" where
  "distorsion_locale_moyenne_f64 network =
     (let (total, count) = distorsion_sums_f64 network
      in if count = 0 then Inl ZeroDivisionError else Inr (f64 (total / real count)))"

definition roughness_sums_f64 :: "real list list list \<Rightarrow> real \<times> nat" where
  "roughness_sums_f64 weight_grid =
     (let height = length weight_grid;
          width = (case weight_grid of [] \<Rightarrow> 0 | r # _ \<Rightarrow> length r)
      in fold (\<lambda>i. fold (\<lambda>j (total_roughness, count).
                 let w_ij = weight_grid ! i ! j
                 in fold (\<lambda>w_neighbor (total_roughness, count).
                            (f64 (total_roughness + dist_sq_f64 w_ij w_neighbor), count + 1))
                      (neighbors weight_grid height width i j)
                      (total_roughness, count))
               [0..<width])
           [0..<height] (0, 0))"

definition compute_local_roughness_f64 :: "real list list list \<Rightarrow> real" where
  "compute_local_roughness_f64 weight_grid =
     (let (total_roughness, count) = roughness_sums_f64 weight_grid
      in if count > 0 then f64 (total_roughness / real count) else 0)"

subsection \<open>Well-formed maps\<close>

text \<open>The activity map mirrors the activations stored in the neurons.\<close>

definition cache_in_sync :: "SOM \<Rightarrow> bool" where
  "cache_in_sync self \<longleftrightarrow> activitymap self = map (map y) (som_map self)"

text \<open>
  The shape that the constructor gives and that no method changes: \<open>som_map\<close> and
  \<open>activitymap\<close> have \<open>gridsize\<close> rows and columns.
\<close>

definition grid_shape :: "SOM \<Rightarrow> bool" where
  "grid_shape self \<longleftrightarrow>
     length (som_map self) = fst (gridsize self)
     \<and> (\<forall>row \<in> set (som_map self). length row = snd (gridsize self))
     \<and> length (activitymap self) = fst (gridsize self)
     \<and> (\<forall>row \<in> set (activitymap self). length row = snd (gridsize self))"

text \<open>Every neuron stores its own grid position, as the constructor sets it.\<close>

definition positions_ok :: "SOM \<Rightarrow> bool" where
  "positions_ok self \<longleftrightarrow>
     (\<forall>i < length (som_map self). \<forall>j < length (som_map self ! i).
        posx (som_map self ! i ! j) = int i \<and> posy (som_map self ! i ! j) = int j)"

text \<open>The input has the dimension of every weight vector of the map.\<close>

definition dimension_ok :: "SOM \<Rightarrow> real list \<Rightarrow> bool" where
  "dimension_ok self x \<longleftrightarrow>
     (\<forall>row \<in> set (som_map self). \<forall>n \<in> set row. length (weights n) = length x)"

subsection \<open>Example maps\<close>

text \<open>A map of one row and two columns whose two units have the same weights.\<close>

definition som_1x2 :: SOM where
  "som_1x2 = \<lparr>inputsize = [1], gridsize = (1, 2),
      som_map = [[\<lparr>weights = [3], posx = 0, posy = 0, y = 0\<rparr>,
                  \<lparr>weights = [3], posx = 0, posy = 1, y = 0\<rparr>]],
      activitymap = [[0, 0]]\<rparr>"

text \<open>A map of one row and two columns, and a map with a single unit.\<close>

definition som_line :: SOM where
  "som_line = \<lparr>inputsize = [1], gridsize = (1, 2),
      som_map = [[\<lparr>weights = [0], posx = 0, posy = 0, y = 0\<rparr>,
                  \<lparr>weights = [2], posx = 0, posy = 1, y = 0\<rparr>]],
      activitymap = [[0, 0]]\<rparr>"

definition som_dot :: SOM where
  "som_dot = \<lparr>inputsize = [1], gridsize = (1, 1),
      som_map = [[\<lparr>weights = [0], posx = 0, posy = 0, y = 0\<rparr>]],
      activitymap = [[0]]\<rparr>"

text \<open>
  A map of one row and three columns with the weights \<open>0\<close>, \<open>1\<close> and
  \<open>1 + 3 / 2 ^ 28\<close>, all of them binary64 numbers.
\<close>

definition som_row3 :: SOM where
  "som_row3 = \<lparr>inputsize = [1], gridsize = (1, 3),
      som_map = [[\<lparr>weights = [0], posx = 0, posy = 0, y = 0\<rparr>,
                  \<lparr>weights = [1], posx = 0, posy = 1, y = 0\<rparr>,
                  \<lparr>weights = [268435459 / 268435456], posx = 0, posy = 2, y = 0\<rparr>]],
      activitymap = [[0, 0, 0]]\<rparr>"

text \<open>A generator that yields \<open>0\<close> at every call.\<close>

definition first_sample :: "nat \<Rightarrow> nat" where
  "first_sample k = 0"

section \<open>Properties\<close>

lemma broadcast_same_length:
  "length a = length b \<Longrightarrow> broadcast f a b = Inr (map2 f a b)"
  by (simp add: broadcast_def)

text \<open>
  Claim C1. With an input of the unit's dimension and \<open>sigma \<noteq> 0\<close>, \<^verbatim>\<open>Neuron.learn\<close>
  succeeds; with
  \<open>d2 = (posx - bmu_row)\<^sup>2 + (posy - bmu_col)\<^sup>2\<close> and \<open>h = exp (- d2 / (2 * sigma\<^sup>2))\<close>
  every component \<open>k\<close> of the new weight vector is
  \<open>weights ! k + eta * h * (x ! k - weights ! k)\<close>, the vector keeps its length, and the
  position and the stored activation of the unit are unchanged.
\<close>

theorem C1_learn_rule:
  assumes "length x = length (weights u)" and "sigma \<noteq> 0"
  shows "\<exists>u'. Neuron_learn u eta sigma bmu_row bmu_col x = Inr u'
           \<and> length (weights u') = length (weights u)
           \<and> (\<forall>k < length (weights u).
                 weights u' ! k =
                   weights u ! k
                   + eta * exp (- real_of_int ((posx u - bmu_row)\<^sup>2 + (posy u - bmu_col)\<^sup>2)
                                / (2 * sigma\<^sup>2))
                     * (x ! k - weights u ! k))
           \<and> posx u' = posx u \<and> posy u' = posy u \<and> y u' = y u"
proof -
  have kernel:
    "- real_of_int ((posx u - bmu_row)\<^sup>2 + (posy u - bmu_col)\<^sup>2) / (2 * sigma * sigma)
       = - real_of_int ((posx u - bmu_row)\<^sup>2 + (posy u - bmu_col)\<^sup>2) / (2 * sigma\<^sup>2)"
    by (simp only: power2_eq_square mult.assoc)
  show ?thesis
    using assms(1)
    by (simp only: Neuron_learn_def Let_def kernel)
       (simp add: broadcast_same_length assign_slice_def)
qed

theorem C1_learn_rule_witness:
  "length [2, 4 :: real] = length (weights \<lparr>weights = [0, 0], posx = 0, posy = 0, y = 0\<rparr>)
   \<and> (1::real) \<noteq> 0
   \<and> (\<exists>u'. Neuron_learn \<lparr>weights = [0, 0], posx = 0, posy = 0, y = 0\<rparr> (1 / 2) 1 0 0 [2, 4] = Inr u'
         \<and> weights u' ! 0 = 1 \<and> weights u' ! 1 = 2)"
  using C1_learn_rule [where x = "[2, 4]" and u = "\<lparr>weights = [0, 0], posx = 0, posy = 0, y = 0\<rparr>"
      and eta = "1 / 2" and sigma = 1 and bmu_row = 0 and bmu_col = 0]
  by (auto simp add: less_Suc_eq numeral_2_eq_2)

lemma sqrt_16: "sqrt 16 = 4"
  using real_sqrt_abs [of 4] by simp

lemma sqrt_25: "sqrt 25 = 5"
  using real_sqrt_abs [of 5] by simp

text \<open>
  Claim C4, as the code has it. \<^verbatim>\<open>Neuron.compute\<close> has no dimension check of its own:
  the only failure is the \<^verbatim>\<open>ValueError\<close> of numpy's subtraction, raised exactly when the
  two lengths differ and neither of them is one (a vector of length one is broadcast).
  When the lengths agree the call stores the Euclidean norm of \<open>weights - x\<close> in \<open>y\<close>
  and changes nothing else.
\<close>

theorem C4_compute:
  "(Neuron_compute u x = Inl ValueError \<longleftrightarrow>
      length x \<noteq> length (weights u) \<and> length x \<noteq> 1 \<and> length (weights u) \<noteq> 1)
   \<and> (length x = length (weights u) \<longrightarrow>
        Neuron_compute u x = Inr (u\<lparr>y := sqrt (\<Sum>k<length x. (weights u ! k - x ! k)\<^sup>2)\<rparr>))"
proof -
  have err: "Neuron_compute u x = Inl ValueError \<longleftrightarrow>
      length x \<noteq> length (weights u) \<and> length x \<noteq> 1 \<and> length (weights u) \<noteq> 1"
    by (auto simp add: Neuron_compute_def broadcast_def)
  have ok: "Neuron_compute u x = Inr (u\<lparr>y := sqrt (\<Sum>k<length x. (weights u ! k - x ! k)\<^sup>2)\<rparr>)"
    if len: "length x = length (weights u)"
  proof -
    have "(\<Sum>t\<leftarrow>map2 (-) (weights u) x. t * t)
            = (\<Sum>k<length x. (weights u ! k - x ! k)\<^sup>2)"
      using len
      by (simp add: sum_list_sum_nth atLeast0LessThan power2_eq_square)
    then show ?thesis
      using len by (simp add: Neuron_compute_def broadcast_def linalg_norm_def)
  qed
  from err ok show ?thesis by blast
qed

theorem C4_compute_witness:
  "length [3, 4 :: real] = length (weights \<lparr>weights = [0, 0], posx = 0, posy = 0, y = 0\<rparr>)
   \<and> Neuron_compute \<lparr>weights = [0, 0], posx = 0, posy = 0, y = 0\<rparr> [3, 4]
       = Inr \<lparr>weights = [0, 0], posx = 0, posy = 0, y = 5\<rparr>
   \<and> Neuron_compute \<lparr>weights = [0, 0, 0], posx = 0, posy = 0, y = 0\<rparr> [3, 4] = Inl ValueError"
  using C4_compute [of "\<lparr>weights = [0, 0], posx = 0, posy = 0, y = 0\<rparr>" "[3, 4]"]
    C4_compute [of "\<lparr>weights = [0, 0, 0], posx = 0, posy = 0, y = 0\<rparr>" "[3, 4]"]
  by (simp add: lessThan_Suc numeral_2_eq_2 sqrt_25)

text \<open>
  The claim as the specification words it fails: an input of length one against a unit
  of dimension two is accepted, and the activation is computed on the broadcast input.
\<close>

theorem C4_counterexample:
  "length [3 :: real] \<noteq> length (weights \<lparr>weights = [3, 7], posx = 0, posy = 0, y = 0\<rparr>)
   \<and> Neuron_compute \<lparr>weights = [3, 7], posx = 0, posy = 0, y = 0\<rparr> [3]
       = Inr \<lparr>weights = [3, 7], posx = 0, posy = 0, y = 4\<rparr>"
  by (simp add: Neuron_compute_def broadcast_def linalg_norm_def sqrt_16)

subsection \<open>The activity map stays in sync\<close>

lemma foreach_invariant:
  assumes "\<And>a s. P s \<Longrightarrow> P (fst (body a s))" and "P s"
  shows "P (fst (foreach as body s))"
  using assms(2)
proof (induction as arbitrary: s)
  case Nil
  then show ?case by simp
next
  case (Cons a as)
  from assms(1) [OF Cons.prems, of a] Cons.IH show ?case
    by (cases "body a s") (auto split: option.splits)
qed

lemma Neuron_compute_fields:
  "Neuron_compute u x = Inr n \<Longrightarrow> weights n = weights u \<and> posx n = posx u \<and> posy n = posy u"
  by (auto simp add: Neuron_compute_def split: sum.splits)

lemma Neuron_learn_fields:
  "Neuron_learn u eta sigma bx bj x = Inr n \<Longrightarrow> y n = y u \<and> posx n = posx u \<and> posy n = posy u"
  by (auto simp add: Neuron_learn_def Let_def split: sum.splits)

lemma compute_cell_sync:
  assumes "cache_in_sync s"
  shows "cache_in_sync (fst (compute_cell x i j s))"
  using assms
  by (auto simp add: compute_cell_def cache_in_sync_def Let_def map_update split: sum.splits)

lemma map_update_same: "j < length row \<Longrightarrow> (map f row)[j := f (row ! j)] = map f row"
  by (metis list_update_id map_update)

lemma learn_cell_sync:
  assumes "cache_in_sync s"
  shows "cache_in_sync (fst (learn_cell eta sigma bx bj x i j s))"
proof (cases "i < length (som_map s) \<and> j < length (som_map s ! i)")
  case False
  with assms show ?thesis by (auto simp add: learn_cell_def)
next
  case True
  show ?thesis
  proof (cases "Neuron_learn (som_map s ! i ! j) eta sigma (int bx) (int bj) x")
    case (Inl e)
    with assms True show ?thesis by (simp add: learn_cell_def)
  next
    case (Inr n)
    then have yn: "y n = y (som_map s ! i ! j)"
      by (simp add: Neuron_learn_fields)
    have "map y ((som_map s ! i)[j := n]) = map y (som_map s ! i)"
      using True by (simp add: map_update yn map_update_same)
    then have "map (map y) ((som_map s)[i := (som_map s ! i)[j := n]]) = map (map y) (som_map s)"
      using True by (simp add: map_update map_update_same)
    with assms True Inr show ?thesis
      by (simp add: learn_cell_def cache_in_sync_def)
  qed
qed

lemma SOM_compute_sync: "cache_in_sync s \<Longrightarrow> cache_in_sync (fst (SOM_compute s x))"
  unfolding SOM_compute_def
  by (intro foreach_invariant [where P = cache_in_sync] compute_cell_sync)

lemma SOM_learn_sync: "cache_in_sync s \<Longrightarrow> cache_in_sync (fst (SOM_learn s eta sigma x))"
  unfolding SOM_learn_def
  by (auto split: sum.splits intro!: foreach_invariant [where P = cache_in_sync] learn_cell_sync)

lemma quantification_step_sync:
  "cache_in_sync (fst st) \<Longrightarrow> cache_in_sync (fst (fst (quantification_step x st)))"
  using SOM_compute_sync [of "fst st" x]
  by (auto simp add: quantification_step_def split: prod.splits option.splits sum.splits)

lemma SOM_quantification_sync:
  assumes "cache_in_sync s"
  shows "cache_in_sync (fst (SOM_quantification s X))"
proof -
  have "cache_in_sync (fst (fst (foreach X quantification_step (s, 0))))"
    by (rule foreach_invariant [where P = "\<lambda>st. cache_in_sync (fst st)"])
       (simp_all add: quantification_step_sync assms)
  then show ?thesis
    by (auto simp add: SOM_quantification_def Let_def split: prod.splits option.splits)
qed

lemma SOM_init_line_eq:
  "SOM_init_line random w i =
     (map (\<lambda>j. Neuron_init (random i j) (int i) (int j)) [0..<w], replicate w 0)"
  unfolding SOM_init_line_def
  by (induction w) (simp_all add: Let_def Neuron_init_def replicate_append_same)

lemma SOM_init_fold:
  "fold (\<lambda>posx (m, am).
            let (mline, amline) = SOM_init_line random w posx
            in (m @ [mline], am @ [amline])) [0..<h] ([], [])
   = (map (\<lambda>i. map (\<lambda>j. Neuron_init (random i j) (int i) (int j)) [0..<w]) [0..<h],
      replicate h (replicate w 0))"
  by (induction h) (simp_all add: SOM_init_line_eq replicate_append_same)

lemma SOM_init_eq:
  "SOM_init insize gsize random =
     \<lparr>inputsize = insize, gridsize = gsize,
      som_map = map (\<lambda>i. map (\<lambda>j. Neuron_init (random i j) (int i) (int j)) [0..<snd gsize])
                    [0..<fst gsize],
      activitymap = replicate (fst gsize) (replicate (snd gsize) 0)\<rparr>"
  unfolding SOM_init_def SOM_init_fold by simp

lemma SOM_init_sync: "cache_in_sync (SOM_init insize gsize random)"
  by (simp add: SOM_init_eq cache_in_sync_def Neuron_init_def comp_def map_replicate_const)

text \<open>
  The maps that the constructor builds have the shape \<open>gridsize\<close>, store their
  positions, and have the dimension of the arrays that were drawn.
\<close>

lemma SOM_init_well_formed:
  "grid_shape (SOM_init insize gsize random)
   \<and> positions_ok (SOM_init insize gsize random)
   \<and> ((\<forall>i j. length (random i j) = length x) \<longrightarrow> dimension_ok (SOM_init insize gsize random) x)"
  by (auto simp add: SOM_init_eq grid_shape_def positions_ok_def dimension_ok_def Neuron_init_def)

lemma cache_in_sync_nth:
  "cache_in_sync s \<Longrightarrow> i < length (som_map s) \<Longrightarrow> j < length (som_map s ! i)
     \<Longrightarrow> activitymap s ! i ! j = y (som_map s ! i ! j)"
  by (simp add: cache_in_sync_def)

text \<open>
  Claim C8. The constructor leaves the activity map in sync with the activations stored
  in the neurons, all of them zero; \<^verbatim>\<open>SOM.compute\<close>, \<^verbatim>\<open>SOM.learn\<close> and
  \<^verbatim>\<open>SOM.quantification\<close> keep it in sync, also when they are left by an exception.
\<close>

theorem C8_cache_in_sync:
  "cache_in_sync (SOM_init insize gsize random)
   \<and> activitymap (SOM_init insize gsize random) = replicate (fst gsize) (replicate (snd gsize) 0)
   \<and> (cache_in_sync s \<longrightarrow>
        cache_in_sync (fst (SOM_compute s x))
        \<and> cache_in_sync (fst (SOM_learn s eta sigma x))
        \<and> cache_in_sync (fst (SOM_quantification s X)))"
proof -
  have zero: "activitymap (SOM_init insize gsize random)
                = replicate (fst gsize) (replicate (snd gsize) 0)"
    by (simp add: SOM_init_eq)
  from zero SOM_init_sync SOM_compute_sync SOM_learn_sync SOM_quantification_sync
  show ?thesis by blast
qed

theorem C8_cache_in_sync_witness:
  "cache_in_sync (SOM_init [1] (1, 2) (\<lambda>i j. [1 / 2]))
   \<and> cache_in_sync (fst (SOM_compute (SOM_init [1] (1, 2) (\<lambda>i j. [1 / 2])) [3]))
   \<and> cache_in_sync (fst (SOM_learn (SOM_init [1] (1, 2) (\<lambda>i j. [1 / 2])) 1 1 [3]))
   \<and> cache_in_sync (fst (SOM_quantification (SOM_init [1] (1, 2) (\<lambda>i j. [1 / 2])) [[3]]))"
  using C8_cache_in_sync [of "[1]" "(1, 2)" "\<lambda>i j. [1 / 2]"
      "SOM_init [1] (1, 2) (\<lambda>i j. [1 / 2])" "[3]" 1 1 "[[3]]"]
  by simp

subsection \<open>The winning unit\<close>

lemma argmin_scan_spec:
  assumes "i = length ps" and "best < i" and "ps ! best = bv"
    and "\<forall>k<i. bv \<le> ps ! k" and "\<forall>k<best. bv < ps ! k"
  shows "argmin_scan vs i best bv < length (ps @ vs)
         \<and> (\<forall>k<length (ps @ vs). (ps @ vs) ! argmin_scan vs i best bv \<le> (ps @ vs) ! k)
         \<and> (\<forall>k<argmin_scan vs i best bv. (ps @ vs) ! argmin_scan vs i best bv < (ps @ vs) ! k)"
  using assms
proof (induction vs arbitrary: ps i best bv)
  case Nil
  then show ?case by simp
next
  case (Cons v vs)
  show ?case
  proof (cases "v < bv")
    case True
    have "argmin_scan vs (Suc i) i v < length ((ps @ [v]) @ vs)
         \<and> (\<forall>k<length ((ps @ [v]) @ vs). ((ps @ [v]) @ vs) ! argmin_scan vs (Suc i) i v \<le> ((ps @ [v]) @ vs) ! k)
         \<and> (\<forall>k<argmin_scan vs (Suc i) i v. ((ps @ [v]) @ vs) ! argmin_scan vs (Suc i) i v < ((ps @ [v]) @ vs) ! k)"
    proof (rule Cons.IH)
      show "Suc i = length (ps @ [v])" using Cons.prems(1) by simp
      show "i < Suc i" by simp
      show "(ps @ [v]) ! i = v" using Cons.prems(1) by simp
      show "\<forall>k<Suc i. v \<le> (ps @ [v]) ! k"
        using Cons.prems(1,4) True by (auto simp add: nth_append less_Suc_eq)
      show "\<forall>k<i. v < (ps @ [v]) ! k"
        using Cons.prems(1,4) True by (auto simp add: nth_append)
    qed
    with True show ?thesis by simp
  next
    case False
    have "argmin_scan vs (Suc i) best bv < length ((ps @ [v]) @ vs)
         \<and> (\<forall>k<length ((ps @ [v]) @ vs). ((ps @ [v]) @ vs) ! argmin_scan vs (Suc i) best bv \<le> ((ps @ [v]) @ vs) ! k)
         \<and> (\<forall>k<argmin_scan vs (Suc i) best bv. ((ps @ [v]) @ vs) ! argmin_scan vs (Suc i) best bv < ((ps @ [v]) @ vs) ! k)"
    proof (rule Cons.IH)
      show "Suc i = length (ps @ [v])" using Cons.prems(1) by simp
      show "best < Suc i" using Cons.prems(2) by simp
      show "(ps @ [v]) ! best = bv" using Cons.prems(1,2,3) by (simp add: nth_append)
      show "\<forall>k<Suc i. bv \<le> (ps @ [v]) ! k"
        using Cons.prems(1,4) False by (auto simp add: nth_append less_Suc_eq)
      show "\<forall>k<best. bv < (ps @ [v]) ! k"
        using Cons.prems(1,2,5) by (auto simp add: nth_append)
    qed
    with False show ?thesis by simp
  qed
qed

lemma argmin_spec:
  assumes "vs \<noteq> []"
  shows "\<exists>r. argmin vs = Inr r \<and> r < length vs
           \<and> (\<forall>k<length vs. vs ! r \<le> vs ! k) \<and> (\<forall>k<r. vs ! r < vs ! k)"
proof -
  from assms obtain v rest where vs: "vs = v # rest" by (cases vs) auto
  have "argmin_scan rest 1 0 v < length ([v] @ rest)
         \<and> (\<forall>k<length ([v] @ rest). ([v] @ rest) ! argmin_scan rest 1 0 v \<le> ([v] @ rest) ! k)
         \<and> (\<forall>k<argmin_scan rest 1 0 v. ([v] @ rest) ! argmin_scan rest 1 0 v < ([v] @ rest) ! k)"
    by (rule argmin_scan_spec) simp_all
  then show ?thesis by (simp add: vs argmin_def)
qed

lemma length_concat_uniform:
  "\<forall>row \<in> set xss. length row = w \<Longrightarrow> length (concat xss) = length xss * w"
  by (induction xss) simp_all

lemma nth_concat_uniform:
  "\<forall>row \<in> set xss. length row = w \<Longrightarrow> i < length xss \<Longrightarrow> j < w
     \<Longrightarrow> concat xss ! (i * w + j) = xss ! i ! j"
proof (induction xss arbitrary: i)
  case Nil
  then show ?case by simp
next
  case (Cons row xss)
  show ?case
  proof (cases i)
    case 0
    with Cons.prems show ?thesis by (simp add: nth_append)
  next
    case (Suc i')
    with Cons.prems have "concat xss ! (i' * w + j) = xss ! i' ! j"
      by (intro Cons.IH) simp_all
    with Cons.prems Suc show ?thesis by (simp add: nth_append add.assoc)
  qed
qed

lemma compute_cell_shape:
  "grid_shape s \<Longrightarrow> grid_shape (fst (compute_cell x i j s))"
  by (auto simp add: compute_cell_def grid_shape_def Let_def
      split: sum.splits dest!: set_update_subset_insert [THEN subsetD])

lemma compute_cell_gridsize:
  "gridsize (fst (compute_cell x i j s)) = gridsize s"
  by (auto simp add: compute_cell_def Let_def split: sum.splits)


lemma SOM_compute_shape:
  assumes "grid_shape s"
  shows "grid_shape (fst (SOM_compute s x)) \<and> gridsize (fst (SOM_compute s x)) = gridsize s"
proof -
  let ?P = "\<lambda>t. grid_shape t \<and> gridsize t = gridsize s"
  have cell: "?P (fst (compute_cell x i j t))" if "?P t" for i j t
    using that by (simp add: compute_cell_shape compute_cell_gridsize)
  have row: "?P (fst (foreach js (\<lambda>posy. compute_cell x i posy) t))" if "?P t" for i js t
    by (rule foreach_invariant [where P = ?P]) (use that cell in blast)+
  have "?P (fst (foreach is (\<lambda>posx. foreach js (\<lambda>posy. compute_cell x posx posy)) s))"
    for "is" js
    by (rule foreach_invariant [where P = ?P]) (use assms row in blast)+
  then show ?thesis by (simp add: SOM_compute_def)
qed

lemma learn_bmu_spec:
  assumes shape: "grid_shape s" and h: "0 < fst (gridsize s)" and w: "0 < snd (gridsize s)"
  shows "\<exists>bi bj. learn_bmu s = Inr (bi, bj)
           \<and> bi < fst (gridsize s) \<and> bj < snd (gridsize s)
           \<and> (\<forall>i<fst (gridsize s). \<forall>j<snd (gridsize s).
                 activitymap s ! bi ! bj \<le> activitymap s ! i ! j)
           \<and> (\<forall>i<fst (gridsize s). \<forall>j<snd (gridsize s).
                 i < bi \<or> (i = bi \<and> j < bj) \<longrightarrow>
                 activitymap s ! bi ! bj < activitymap s ! i ! j)"
proof -
  let ?H = "fst (gridsize s)" and ?W = "snd (gridsize s)" and ?am = "activitymap s"
  let ?flat = "concat ?am"
  have rows: "\<forall>row \<in> set ?am. length row = ?W" and len: "length ?am = ?H"
    using shape by (simp_all add: grid_shape_def)
  have flat_len: "length ?flat = ?H * ?W"
    using length_concat_uniform [OF rows] len by simp
  have flat_nth: "?flat ! (i * ?W + j) = ?am ! i ! j" if "i < ?H" "j < ?W" for i j
    using nth_concat_uniform [OF rows] that len by simp
  have "0 < length ?flat" using flat_len h w by simp
  then have "?flat \<noteq> []" by (rule length_greater_0_conv [THEN iffD1])
  from argmin_spec [OF this] obtain r where r: "argmin ?flat = Inr r" "r < length ?flat"
    and least: "\<forall>k<length ?flat. ?flat ! r \<le> ?flat ! k"
    and first: "\<forall>k<r. ?flat ! r < ?flat ! k"
    by blast
  let ?bi = "r div ?W" and ?bj = "r mod ?W"
  have bi: "?bi < ?H"
    using r(2) flat_len w by (simp add: less_mult_imp_div_less)
  have bj: "?bj < ?W" using w by simp
  have r_eq: "?bi * ?W + ?bj = r" by simp
  have at_r: "?am ! ?bi ! ?bj = ?flat ! r"
    using flat_nth [OF bi bj] r_eq by simp
  have idx: "i * ?W + j < ?H * ?W" if "i < ?H" "j < ?W" for i j
  proof -
    have "i * ?W + j < i * ?W + ?W" using that by simp
    also have "\<dots> = Suc i * ?W" by simp
    also have "\<dots> \<le> ?H * ?W" using that by (intro mult_le_mono1) simp
    finally show ?thesis .
  qed
  have bmu: "learn_bmu s = Inr (?bi, ?bj)"
    using r flat_len by (simp add: learn_bmu_def unravel_index_def)
  have min: "?am ! ?bi ! ?bj \<le> ?am ! i ! j" if "i < ?H" "j < ?W" for i j
    using least idx [OF that] flat_nth [OF that] flat_len at_r by auto
  have earlier: "?am ! ?bi ! ?bj < ?am ! i ! j"
    if ij: "i < ?H" "j < ?W" and before: "i < ?bi \<or> (i = ?bi \<and> j < ?bj)" for i j
  proof -
    have "i * ?W + j < r"
    proof (rule disjE [OF before])
      assume "i < ?bi"
      then have "Suc i * ?W \<le> ?bi * ?W" by (intro mult_le_mono1) simp
      moreover have "i * ?W + j < Suc i * ?W" using ij by simp
      ultimately have "i * ?W + j < ?bi * ?W + ?bj" by linarith
      then show ?thesis using r_eq by simp
    next
      assume same: "i = ?bi \<and> j < ?bj"
      then have "j < ?bj" by blast
      then have "i * ?W + j < i * ?W + ?bj" by (simp only: add_less_cancel_left)
      also have "\<dots> = r" using same by simp
      finally show ?thesis .
    qed
    with first flat_nth [OF ij] at_r show ?thesis by auto
  qed
  from bmu bi bj min earlier show ?thesis by blast
qed

text \<open>
  Claim C2. On a map with at least one unit, after a pass of \<^verbatim>\<open>SOM.compute\<close> that
  raised nothing, the position that \<^verbatim>\<open>SOM.learn\<close> selects lies in the grid, its cached
  activation is less than or equal to every cached activation, and strictly less than
  the cached activation of every position that precedes it in row-major order (a
  lower row, or the same row and a lower column): among tied minima the first one wins.
\<close>

theorem C2_bmu_first_minimum:
  assumes "grid_shape s" and "0 < fst (gridsize s)" and "0 < snd (gridsize s)"
    and "SOM_compute s x = (s', None)"
  shows "\<exists>bi bj. learn_bmu s' = Inr (bi, bj)
           \<and> bi < fst (gridsize s') \<and> bj < snd (gridsize s')
           \<and> (\<forall>i<fst (gridsize s'). \<forall>j<snd (gridsize s').
                 activitymap s' ! bi ! bj \<le> activitymap s' ! i ! j)
           \<and> (\<forall>i<fst (gridsize s'). \<forall>j<snd (gridsize s').
                 i < bi \<or> (i = bi \<and> j < bj) \<longrightarrow>
                 activitymap s' ! bi ! bj < activitymap s' ! i ! j)"
proof -
  from SOM_compute_shape [OF assms(1), of x] assms(4)
  have "grid_shape s'" and "gridsize s' = gridsize s" by simp_all
  with assms(2,3) show ?thesis by (intro learn_bmu_spec) simp_all
qed

theorem C2_bmu_first_minimum_witness:
  "grid_shape som_1x2 \<and> 0 < fst (gridsize som_1x2) \<and> 0 < snd (gridsize som_1x2)
   \<and> SOM_compute som_1x2 [3] = (som_1x2, None)
   \<and> learn_bmu som_1x2 = Inr (0, 0)
   \<and> (\<exists>bi bj. learn_bmu som_1x2 = Inr (bi, bj)
           \<and> bi < fst (gridsize som_1x2) \<and> bj < snd (gridsize som_1x2)
           \<and> (\<forall>i<fst (gridsize som_1x2). \<forall>j<snd (gridsize som_1x2).
                 activitymap som_1x2 ! bi ! bj \<le> activitymap som_1x2 ! i ! j)
           \<and> (\<forall>i<fst (gridsize som_1x2). \<forall>j<snd (gridsize som_1x2).
                 i < bi \<or> (i = bi \<and> j < bj) \<longrightarrow>
                 activitymap som_1x2 ! bi ! bj < activitymap som_1x2 ! i ! j))"
proof -
  have shape: "grid_shape som_1x2" by (simp add: grid_shape_def som_1x2_def)
  have h: "0 < fst (gridsize som_1x2)" and w: "0 < snd (gridsize som_1x2)"
    by (simp_all add: som_1x2_def)
  have run: "SOM_compute som_1x2 [3] = (som_1x2, None)"
    by (simp add: SOM_compute_def som_1x2_def upt_rec compute_cell_def Neuron_compute_def
      broadcast_def linalg_norm_def)
  have bmu: "learn_bmu som_1x2 = Inr (0, 0)"
    by (simp add: learn_bmu_def som_1x2_def argmin_def unravel_index_def)
  from C2_bmu_first_minimum [OF shape h w run] shape h w run bmu show ?thesis by blast
qed

subsection \<open>Sums over the grid\<close>

lemma guard_last:
  fixes c :: "nat \<Rightarrow> 'a::comm_monoid_add"
  shows "(\<Sum>i\<leftarrow>[0..<n]. if Suc i < n then c i else 0) = (\<Sum>i\<leftarrow>[0..<n - Suc 0]. c i)"
proof (cases n)
  case 0
  then show ?thesis by simp
next
  case (Suc m)
  have "(\<Sum>i\<leftarrow>[0..<m]. if i < m then c i else 0) = (\<Sum>i\<leftarrow>[0..<m]. c i)"
    by (rule arg_cong [where f = sum_list], rule map_cong) simp_all
  with Suc show ?thesis by simp
qed

lemma guard_first:
  fixes c :: "nat \<Rightarrow> 'a::comm_monoid_add"
  shows "(\<Sum>i\<leftarrow>[0..<n]. if 0 < i then c (i - Suc 0) else 0) = (\<Sum>i\<leftarrow>[0..<n - Suc 0]. c i)"
proof (cases n)
  case 0
  then show ?thesis by simp
next
  case (Suc m)
  have "[0..<Suc m] = 0 # map Suc [0..<m]"
    by (simp add: upt_conv_Cons map_Suc_upt del: upt_Suc)
  then show ?thesis using Suc by (simp add: comp_def del: upt_Suc)
qed

lemma dist_sq_sym: "dist_sq a b = dist_sq b a"
proof -
  have "(\<Sum>t\<leftarrow>map2 (-) a b. t * t) = (\<Sum>t\<leftarrow>map2 (-) b a. t * t)"
  proof (induction a arbitrary: b)
    case Nil
    then show ?case by simp
  next
    case (Cons u a)
    show ?case
    proof (cases b)
      case Nil
      then show ?thesis by simp
    next
      case (Cons v b')
      have "(u - v) * (u - v) = (v - u) * (v - u)" by (simp add: algebra_simps)
      with Cons Cons.IH [of b'] show ?thesis by simp
    qed
  qed
  then show ?thesis by (simp add: dist_sq_def linalg_norm_def)
qed

lemma sum_sq_nonneg: "0 \<le> (\<Sum>t\<leftarrow>v. t * t :: real)"
  by (induction v) simp_all

lemma dist_sq_nonneg: "0 \<le> dist_sq a b"
  by (simp add: dist_sq_def)

lemma dist_sq_eq: "dist_sq a b = (\<Sum>t\<leftarrow>map2 (-) a b. t * t)"
  by (simp only: dist_sq_def linalg_norm_def real_sqrt_pow2 [OF sum_sq_nonneg])

lemma fold_pair_body:
  fixes t0 :: real and c0 :: nat
  assumes "\<And>i t c. b i (t, c) = (t + f i, c + g i)"
  shows "fold b xs (t0, c0) = (t0 + sum_list (map f xs), c0 + sum_list (map g xs))"
  by (induction xs arbitrary: t0 c0) (simp_all add: assms add.assoc)

lemma fold2_pair_body:
  fixes t0 :: real and c0 :: nat
  assumes "\<And>i j t c. b i j (t, c) = (t + f i j, c + g i j)"
  shows "fold (\<lambda>i. fold (b i) js) is (t0, c0)
           = (t0 + (\<Sum>i\<leftarrow>is. \<Sum>j\<leftarrow>js. f i j), c0 + (\<Sum>i\<leftarrow>is. \<Sum>j\<leftarrow>js. g i j))"
proof (induction "is" arbitrary: t0 c0)
  case Nil
  then show ?case by simp
next
  case (Cons i "is")
  have "fold (b i) js (t0, c0) = (t0 + (\<Sum>j\<leftarrow>js. f i j), c0 + (\<Sum>j\<leftarrow>js. g i j))"
    by (rule fold_pair_body) (rule assms)
  then show ?case by (simp add: Cons.IH add.assoc)
qed

lemma sum_list_const_nat: "(\<Sum>j\<leftarrow>[0..<n]. (k::nat)) = n * k"
  by (induction n) simp_all

lemma distorsion_sums_raw:
  "distorsion_sums net =
     ((\<Sum>i\<leftarrow>[0..<fst (gridsize net)]. \<Sum>j\<leftarrow>[0..<snd (gridsize net)].
          (if i + 1 < fst (gridsize net)
           then dist_sq (weightsmap net ! i ! j) (weightsmap net ! (i + 1) ! j) else 0)
          + (if j + 1 < snd (gridsize net)
             then dist_sq (weightsmap net ! i ! j) (weightsmap net ! i ! (j + 1)) else 0)),
      (\<Sum>i\<leftarrow>[0..<fst (gridsize net)]. \<Sum>j\<leftarrow>[0..<snd (gridsize net)].
          (if i + 1 < fst (gridsize net) then 1 else 0)
          + (if j + 1 < snd (gridsize net) then 1 else 0)))"
proof -
  have "fold (\<lambda>i. fold (\<lambda>j (total, count).
                 let current = weightsmap net ! i ! j;
                     (total, count) =
                       (if i + 1 < fst (gridsize net)
                        then (total + dist_sq current (weightsmap net ! (i + 1) ! j), count + 1)
                        else (total, count));
                     (total, count) =
                       (if j + 1 < snd (gridsize net)
                        then (total + dist_sq current (weightsmap net ! i ! (j + 1)), count + 1)
                        else (total, count))
                 in (total, count))
               [0..<snd (gridsize net)])
           [0..<fst (gridsize net)] (0::real, 0::nat)
        = (0 + (\<Sum>i\<leftarrow>[0..<fst (gridsize net)]. \<Sum>j\<leftarrow>[0..<snd (gridsize net)].
          (if i + 1 < fst (gridsize net)
           then dist_sq (weightsmap net ! i ! j) (weightsmap net ! (i + 1) ! j) else 0)
          + (if j + 1 < snd (gridsize net)
             then dist_sq (weightsmap net ! i ! j) (weightsmap net ! i ! (j + 1)) else 0)),
      0 + (\<Sum>i\<leftarrow>[0..<fst (gridsize net)]. \<Sum>j\<leftarrow>[0..<snd (gridsize net)].
          (if i + 1 < fst (gridsize net) then 1 else 0)
          + (if j + 1 < snd (gridsize net) then 1 else 0)))"
    by (rule fold2_pair_body) (simp add: Let_def)
  then show ?thesis by (simp add: distorsion_sums_def Let_def)
qed


lemma grid_sum_split:
  fixes D R :: "nat \<Rightarrow> nat \<Rightarrow> 'a::comm_monoid_add"
  shows "(\<Sum>i\<leftarrow>[0..<H]. \<Sum>j\<leftarrow>[0..<W].
            (if Suc i < H then D i j else 0) + (if Suc j < W then R i j else 0))
         = (\<Sum>i\<leftarrow>[0..<H - Suc 0]. \<Sum>j\<leftarrow>[0..<W]. D i j)
           + (\<Sum>i\<leftarrow>[0..<H]. \<Sum>j\<leftarrow>[0..<W - Suc 0]. R i j)"
proof -
  have "(\<Sum>i\<leftarrow>[0..<H]. \<Sum>j\<leftarrow>[0..<W].
            (if Suc i < H then D i j else 0) + (if Suc j < W then R i j else 0))
        = (\<Sum>i\<leftarrow>[0..<H]. (if Suc i < H then (\<Sum>j\<leftarrow>[0..<W]. D i j) else 0)
                          + (\<Sum>j\<leftarrow>[0..<W - Suc 0]. R i j))"
    by (rule arg_cong [where f = sum_list], rule map_cong)
       (simp_all add: sum_list_addf guard_last)
  also have "\<dots> = (\<Sum>i\<leftarrow>[0..<H]. if Suc i < H then (\<Sum>j\<leftarrow>[0..<W]. D i j) else 0)
                   + (\<Sum>i\<leftarrow>[0..<H]. \<Sum>j\<leftarrow>[0..<W - Suc 0]. R i j)"
    by (simp add: sum_list_addf)
  also have "\<dots> = (\<Sum>i\<leftarrow>[0..<H - Suc 0]. \<Sum>j\<leftarrow>[0..<W]. D i j)
                   + (\<Sum>i\<leftarrow>[0..<H]. \<Sum>j\<leftarrow>[0..<W - Suc 0]. R i j)"
    by (simp only: guard_last)
  finally show ?thesis .
qed

lemma sum_list_product:
  fixes f :: "nat \<times> nat \<Rightarrow> 'a::comm_monoid_add"
  shows "sum_list (map f (List.product xs ys)) = (\<Sum>i\<leftarrow>xs. \<Sum>j\<leftarrow>ys. f (i, j))"
  by (induction xs) (simp_all add: comp_def)

lemma edges_sum:
  "sum_list (map (edge_dist_sq w) (edges H W))
     = (\<Sum>i\<leftarrow>[0..<H - 1]. \<Sum>j\<leftarrow>[0..<W]. dist_sq (w ! i ! j) (w ! (i + 1) ! j))
       + (\<Sum>i\<leftarrow>[0..<H]. \<Sum>j\<leftarrow>[0..<W - 1]. dist_sq (w ! i ! j) (w ! i ! (j + 1)))"
  by (simp add: edges_def sum_list_product comp_def split_def edge_dist_sq_def)

lemma edges_length: "length (edges H W) = (H - 1) * W + H * (W - 1)"
  by (simp add: edges_def)

lemma distorsion_sums_edges:
  "distorsion_sums net =
     (sum_list (map (edge_dist_sq (weightsmap net))
                  (edges (fst (gridsize net)) (snd (gridsize net)))),
      length (edges (fst (gridsize net)) (snd (gridsize net))))"
proof -
  let ?H = "fst (gridsize net)" and ?W = "snd (gridsize net)" and ?w = "weightsmap net"
  have total: "fst (distorsion_sums net) = sum_list (map (edge_dist_sq ?w) (edges ?H ?W))"
    using grid_sum_split [where H = ?H and W = ?W
        and D = "\<lambda>i j. dist_sq (?w ! i ! j) (?w ! Suc i ! j)"
        and R = "\<lambda>i j. dist_sq (?w ! i ! j) (?w ! i ! Suc j)"]
    by (simp add: distorsion_sums_raw edges_sum cong: if_cong)
  have count: "snd (distorsion_sums net) = length (edges ?H ?W)"
    using grid_sum_split [where H = ?H and W = ?W
        and D = "\<lambda>i j. 1::nat" and R = "\<lambda>i j. 1::nat"]
    by (simp add: distorsion_sums_raw edges_length sum_list_const_nat)
  from total count show ?thesis by (simp add: prod_eq_iff)
qed

lemma edges_distinct: "distinct (edges H W)"
  by (auto simp add: edges_def distinct_map distinct_product inj_on_def)

lemma edges_set:
  "set (edges H W) =
     {((i, j), (i', j')). i < H \<and> j < W \<and> i' < H \<and> j' < W
        \<and> ((i' = i + 1 \<and> j' = j) \<or> (i' = i \<and> j' = j + 1))}"
  by (auto simp add: edges_def image_iff)

lemma edges_nonempty: "edges H W \<noteq> [] \<longleftrightarrow> (1 < H \<and> 0 < W) \<or> (0 < H \<and> 1 < W)"
proof -
  have "edges H W \<noteq> [] \<longleftrightarrow> 0 < length (edges H W)" by simp
  also have "\<dots> \<longleftrightarrow> (1 < H \<and> 0 < W) \<or> (0 < H \<and> 1 < W)"
    by (auto simp add: edges_length)
  finally show ?thesis .
qed

lemma edges_1_2: "edges (Suc 0) 2 = [((0, 0), (0, 1))]"
  by (simp add: edges_def upt_rec)

lemma edge_dist_sq_explicit:
  "edge_dist_sq w e =
     (\<Sum>(u, v)\<leftarrow>zip (w ! fst (fst e) ! snd (fst e)) (w ! fst (snd e) ! snd (snd e)). (u - v)\<^sup>2)"
proof -
  have "(\<Sum>t\<leftarrow>map2 (-) a b. t * t) = (\<Sum>(u, v)\<leftarrow>zip a b. (u - v)\<^sup>2)" for a b :: "real list"
    by (simp add: comp_def split_def power2_eq_square)
  then show ?thesis by (simp add: edge_dist_sq_def dist_sq_eq)
qed

text \<open>
  Claim C6. \<open>edges h w\<close> lists every pair of a unit and its bottom neighbour and every
  pair of a unit and its right neighbour, each pair once (\<open>edges_set\<close>,
  \<open>edges_distinct\<close>); it is non-empty exactly when the grid has a unit and more than one
  row or more than one column (\<open>edges_nonempty\<close>). On a map of shape \<open>gridsize\<close> with at
  least one edge \<^verbatim>\<open>distorsion_locale_moyenne\<close> returns, divided by the number of these
  edges, the sum over them of the squared Euclidean distance of the two weight vectors,
  that is of the sum of the squares \<open>(u - v)\<^sup>2\<close> of the differences of their components.
  On a grid of one row and one column the division \<^verbatim>\<open>total / count\<close> is reached with
  \<^verbatim>\<open>count = 0\<close> and raises \<^verbatim>\<open>ZeroDivisionError\<close>.
\<close>

theorem C6_local_distortion:
  "(grid_shape net \<and> edges (fst (gridsize net)) (snd (gridsize net)) \<noteq> [] \<longrightarrow>
      distorsion_locale_moyenne net =
        Inr ((\<Sum>e\<leftarrow>edges (fst (gridsize net)) (snd (gridsize net)).
                \<Sum>(u, v)\<leftarrow>zip (weightsmap net ! fst (fst e) ! snd (fst e))
                               (weightsmap net ! fst (snd e) ! snd (snd e)). (u - v)\<^sup>2)
             / real (length (edges (fst (gridsize net)) (snd (gridsize net))))))
   \<and> distinct (edges (fst (gridsize net)) (snd (gridsize net)))
   \<and> (grid_shape net \<and> gridsize net = (1, 1) \<longrightarrow>
        distorsion_locale_moyenne net = Inl ZeroDivisionError)"
proof -
  have none: "length (edges 1 1) = 0" by (simp add: edges_length)
  have sums: "sum_list (map (edge_dist_sq (weightsmap net)) es) =
      (\<Sum>e\<leftarrow>es. \<Sum>(u, v)\<leftarrow>zip (weightsmap net ! fst (fst e) ! snd (fst e))
                               (weightsmap net ! fst (snd e) ! snd (snd e)). (u - v)\<^sup>2)" for es
    by (rule arg_cong [where f = sum_list], rule map_cong)
       (simp_all only: edge_dist_sq_explicit)
  from none show ?thesis
    by (simp add: distorsion_locale_moyenne_def distorsion_sums_edges py_div_def edges_distinct
        sums)
qed

theorem C6_local_distortion_witness:
  "grid_shape som_line
   \<and> edges (fst (gridsize som_line)) (snd (gridsize som_line)) \<noteq> []
   \<and> distorsion_locale_moyenne som_line = Inr 4
   \<and> grid_shape som_dot \<and> gridsize som_dot = (1, 1)
   \<and> distorsion_locale_moyenne som_dot = Inl ZeroDivisionError"
  using C6_local_distortion [of som_line] C6_local_distortion [of som_dot]
  by (simp add: som_line_def som_dot_def edges_1_2 weightsmap_def grid_shape_def)

subsection \<open>Roughness and heat map\<close>

lemma fold_count_sum:
  fixes t0 :: real and c0 :: nat
  shows "fold (\<lambda>v (t, c). (t + f v, Suc c)) vs (t0, c0)
           = (t0 + sum_list (map f vs), c0 + length vs)"
  by (induction vs arbitrary: t0 c0) (simp_all add: add.assoc)

lemma roughness_sums_raw:
  "roughness_sums wg =
     ((\<Sum>i\<leftarrow>[0..<length wg]. \<Sum>j\<leftarrow>[0..<(case wg of [] \<Rightarrow> 0 | r # _ \<Rightarrow> length r)].
         \<Sum>v\<leftarrow>neighbors wg (length wg) (case wg of [] \<Rightarrow> 0 | r # _ \<Rightarrow> length r) i j.
            dist_sq (wg ! i ! j) v),
      (\<Sum>i\<leftarrow>[0..<length wg]. \<Sum>j\<leftarrow>[0..<(case wg of [] \<Rightarrow> 0 | r # _ \<Rightarrow> length r)].
         length (neighbors wg (length wg) (case wg of [] \<Rightarrow> 0 | r # _ \<Rightarrow> length r) i j)))"
proof -
  let ?H = "length wg" and ?W = "case wg of [] \<Rightarrow> 0 | r # _ \<Rightarrow> length r"
  have "fold (\<lambda>i. fold (\<lambda>j (total_roughness, count).
                 let w_ij = wg ! i ! j
                 in fold (\<lambda>w_neighbor (total_roughness, count).
                            (total_roughness + dist_sq w_ij w_neighbor, count + 1))
                      (neighbors wg ?H ?W i j)
                      (total_roughness, count))
               [0..<?W])
           [0..<?H] (0::real, 0::nat)
        = (0 + (\<Sum>i\<leftarrow>[0..<?H]. \<Sum>j\<leftarrow>[0..<?W].
                  \<Sum>v\<leftarrow>neighbors wg ?H ?W i j. dist_sq (wg ! i ! j) v),
           0 + (\<Sum>i\<leftarrow>[0..<?H]. \<Sum>j\<leftarrow>[0..<?W]. length (neighbors wg ?H ?W i j)))"
    by (rule fold2_pair_body) (simp add: Let_def fold_count_sum)
  then show ?thesis by (simp add: roughness_sums_def Let_def)
qed

lemma sum_list_nonneg2:
  fixes f :: "nat \<Rightarrow> nat \<Rightarrow> real"
  assumes "\<And>i j. 0 \<le> f i j"
  shows "0 \<le> (\<Sum>i\<leftarrow>is. \<Sum>j\<leftarrow>js. f i j)"
  by (intro sum_list_nonneg) (auto intro!: sum_list_nonneg assms)

lemma roughness_nonneg: "0 \<le> compute_local_roughness wg"
proof -
  have "0 \<le> fst (roughness_sums wg)"
    unfolding roughness_sums_raw fst_conv
    by (rule sum_list_nonneg2) (auto intro!: sum_list_nonneg simp add: dist_sq_nonneg)
  then show ?thesis
    by (simp add: compute_local_roughness_def split_def Let_def)
qed

lemma roughness_1x1: "roughness_sums [[v]] = (0, 0) \<and> compute_local_roughness [[v]] = 0"
  by (simp add: compute_local_roughness_def roughness_sums_def neighbors_def)

lemma heat_cell_nonneg: "0 \<le> heat_cell w gs i j"
  by (cases "0 < i"; cases "i < fst gs - 1"; cases "0 < j"; cases "j < snd gs - 1")
     (simp_all add: heat_cell_def dist_sq_nonneg add_nonneg_nonneg)

lemma heat_cell_1x1: "heat_cell w (Suc 0, Suc 0) 0 0 = 0"
  by (simp add: heat_cell_def)

lemma heat_update_nonneg:
  assumes "\<forall>row \<in> set hm. \<forall>v \<in> set row. (0::real) \<le> v" and "0 \<le> c"
  shows "\<forall>row \<in> set (hm[i := (hm ! i)[j := c]]). \<forall>v \<in> set row. 0 \<le> v"
proof (cases "i < length hm")
  case False
  with assms show ?thesis by (simp add: list_update_beyond)
next
  case True
  have row: "\<forall>v \<in> set (hm ! i). 0 \<le> v" using assms(1) nth_mem [OF True] by blast
  have "\<forall>v \<in> set ((hm ! i)[j := c]). 0 \<le> v"
    using row assms(2) set_update_subset_insert [of "hm ! i" j c] by auto
  with assms(1) set_update_subset_insert [of hm i "(hm ! i)[j := c]"] show ?thesis by auto
qed

lemma fold_preserves:
  assumes "\<And>a s. P s \<Longrightarrow> P (f a s)" and "P s"
  shows "P (fold f xs s)"
  using assms(2) by (induction xs arbitrary: s) (simp_all add: assms(1))

lemma heatmap_nonneg: "\<forall>row \<in> set (carte_de_chaleur_distorsion net). \<forall>v \<in> set row. 0 \<le> v"
proof -
  let ?P = "\<lambda>hm :: real list list. \<forall>row \<in> set hm. \<forall>v \<in> set row. 0 \<le> v"
  let ?w = "weightsmap net" and ?gs = "gridsize net"
  have cell: "?P (hm[i := (hm ! i)[j := heat_cell ?w ?gs i j]])" if "?P hm" for i j hm
    using that heat_cell_nonneg by (rule heat_update_nonneg)
  have inner: "?P (fold (\<lambda>j heatmap. heatmap[i := (heatmap ! i)[j := heat_cell ?w ?gs i j]]) js hm)"
    if "?P hm" for i js hm
    using cell that by (rule fold_preserves [where P = ?P])
  have outer: "?P (fold (\<lambda>i. fold (\<lambda>j heatmap.
                  heatmap[i := (heatmap ! i)[j := heat_cell ?w ?gs i j]]) js) is hm)"
    if "?P hm" for "is" js hm
    using inner that by (rule fold_preserves [where P = ?P])
  have "?P (replicate (fst ?gs) (replicate (snd ?gs) 0))" by simp
  from outer [OF this] show ?thesis
    by (simp only: carte_de_chaleur_distorsion_def Let_def)
qed

lemma heatmap_1x1: "gridsize net = (1, 1) \<Longrightarrow> carte_de_chaleur_distorsion net = [[0]]"
  by (simp add: carte_de_chaleur_distorsion_def heat_cell_1x1)

lemma weightsmap_1x1:
  assumes "grid_shape net" and "gridsize net = (1, 1)"
  shows "\<exists>u. weightsmap net = [[u]]"
proof -
  from assms have len: "length (som_map net) = 1"
    and rows: "\<forall>row \<in> set (som_map net). length row = 1"
    by (simp_all add: grid_shape_def)
  from len obtain row where sm: "som_map net = [row]"
    by (cases "som_map net") auto
  with rows have "length row = 1" by simp
  then obtain n where "row = [n]" by (cases row) auto
  with sm show ?thesis by (simp add: weightsmap_def)
qed

text \<open>
  Claim C7. On a map of shape \<open>gridsize\<close> with at least one unit,
  \<^verbatim>\<open>compute_local_roughness(numpy.array(network.weightsmap))\<close> is never negative, and
  no cell of the heat map is. On a grid of one row and one column the neighbour count
  is zero and both take the guarded branch \<^verbatim>\<open>... if count > 0 else 0\<close>: the roughness
  is 0 and the heat map is \<open>[[0]]\<close>.
\<close>

theorem C7_roughness_heatmap:
  "(grid_shape net \<and> 0 < fst (gridsize net) \<and> 0 < snd (gridsize net) \<longrightarrow>
      0 \<le> compute_local_roughness (weightsmap net))
   \<and> (grid_shape net \<longrightarrow>
        (\<forall>row \<in> set (carte_de_chaleur_distorsion net). \<forall>v \<in> set row. 0 \<le> v))
   \<and> (grid_shape net \<and> gridsize net = (1, 1) \<longrightarrow>
        roughness_sums (weightsmap net) = (0, 0)
        \<and> compute_local_roughness (weightsmap net) = 0
        \<and> carte_de_chaleur_distorsion net = [[0]])"
proof -
  have one: "roughness_sums (weightsmap net) = (0, 0)
        \<and> compute_local_roughness (weightsmap net) = 0
        \<and> carte_de_chaleur_distorsion net = [[0]]"
    if "grid_shape net" "gridsize net = (1, 1)"
  proof -
    from weightsmap_1x1 [OF that] obtain u where "weightsmap net = [[u]]" by blast
    with roughness_1x1 [of u] heatmap_1x1 [OF that(2)] show ?thesis by simp
  qed
  from roughness_nonneg heatmap_nonneg one show ?thesis by blast
qed

theorem C7_roughness_heatmap_witness:
  "grid_shape som_dot \<and> gridsize som_dot = (1, 1)
   \<and> grid_shape som_line \<and> 0 < fst (gridsize som_line) \<and> 0 < snd (gridsize som_line)
   \<and> carte_de_chaleur_distorsion som_dot = [[0]]
   \<and> compute_local_roughness (weightsmap som_dot) = 0
   \<and> 0 \<le> compute_local_roughness (weightsmap som_line)
   \<and> carte_de_chaleur_distorsion som_line = [[4, 4]]
   \<and> 0 \<le> carte_de_chaleur_distorsion som_line ! 0 ! 1"
proof -
  have hm: "carte_de_chaleur_distorsion som_line = [[4, 4]]"
    by (simp add: carte_de_chaleur_distorsion_def som_line_def upt_rec heat_cell_def
      weightsmap_def dist_sq_eq numeral_2_eq_2)
  have dot: "gridsize som_dot = (1, 1)" by (simp add: som_dot_def)
  have wdot: "weightsmap som_dot = [[[0]]]" by (simp add: som_dot_def weightsmap_def)
  have shapes: "grid_shape som_dot" "grid_shape som_line"
    "0 < fst (gridsize som_line)" "0 < snd (gridsize som_line)"
    by (simp_all add: grid_shape_def som_dot_def som_line_def)
  from C7_roughness_heatmap [of som_line] C7_roughness_heatmap [of som_dot] hm dot wdot shapes
  show ?thesis by simp
qed

lemma neighbors_sum:
  "(\<Sum>v\<leftarrow>neighbors wg H W i j. f v)
     = (if 0 < i then f (wg ! (i - 1) ! j) else 0)
       + (if i < H - 1 then f (wg ! (i + 1) ! j) else 0)
       + (if 0 < j then f (wg ! i ! (j - 1)) else 0)
       + (if j < W - 1 then f (wg ! i ! (j + 1)) else (0::real))"
  by (simp add: neighbors_def)

lemma neighbors_length:
  "length (neighbors wg H W i j)
     = (if 0 < i then 1 else 0) + (if i < H - 1 then 1 else 0)
       + (if 0 < j then 1 else 0) + (if j < W - 1 then 1 else 0)"
  by (simp add: neighbors_def)

lemma grid_sum_four:
  fixes U D L R :: "nat \<Rightarrow> nat \<Rightarrow> 'a::comm_monoid_add"
  shows "(\<Sum>i\<leftarrow>[0..<H]. \<Sum>j\<leftarrow>[0..<W].
            (if 0 < i then U (i - Suc 0) j else 0) + (if Suc i < H then D i j else 0)
            + (if 0 < j then L i (j - Suc 0) else 0) + (if Suc j < W then R i j else 0))
         = (\<Sum>i\<leftarrow>[0..<H - Suc 0]. \<Sum>j\<leftarrow>[0..<W]. U i j)
           + (\<Sum>i\<leftarrow>[0..<H - Suc 0]. \<Sum>j\<leftarrow>[0..<W]. D i j)
           + (\<Sum>i\<leftarrow>[0..<H]. \<Sum>j\<leftarrow>[0..<W - Suc 0]. L i j)
           + (\<Sum>i\<leftarrow>[0..<H]. \<Sum>j\<leftarrow>[0..<W - Suc 0]. R i j)"
proof -
  have "(\<Sum>i\<leftarrow>[0..<H]. \<Sum>j\<leftarrow>[0..<W].
            (if 0 < i then U (i - Suc 0) j else 0) + (if Suc i < H then D i j else 0)
            + (if 0 < j then L i (j - Suc 0) else 0) + (if Suc j < W then R i j else 0))
        = (\<Sum>i\<leftarrow>[0..<H].
             (if 0 < i then (\<Sum>j\<leftarrow>[0..<W]. U (i - Suc 0) j) else 0)
             + (if Suc i < H then (\<Sum>j\<leftarrow>[0..<W]. D i j) else 0)
             + (\<Sum>j\<leftarrow>[0..<W - Suc 0]. L i j)
             + (\<Sum>j\<leftarrow>[0..<W - Suc 0]. R i j))"
    by (rule arg_cong [where f = sum_list], rule map_cong)
       (simp_all add: sum_list_addf guard_last guard_first)
  also have "\<dots> = (\<Sum>i\<leftarrow>[0..<H]. if 0 < i then (\<Sum>j\<leftarrow>[0..<W]. U (i - Suc 0) j) else 0)
             + (\<Sum>i\<leftarrow>[0..<H]. if Suc i < H then (\<Sum>j\<leftarrow>[0..<W]. D i j) else 0)
             + (\<Sum>i\<leftarrow>[0..<H]. \<Sum>j\<leftarrow>[0..<W - Suc 0]. L i j)
             + (\<Sum>i\<leftarrow>[0..<H]. \<Sum>j\<leftarrow>[0..<W - Suc 0]. R i j)"
    by (simp add: sum_list_addf)
  also have "\<dots> = (\<Sum>i\<leftarrow>[0..<H - Suc 0]. \<Sum>j\<leftarrow>[0..<W]. U i j)
           + (\<Sum>i\<leftarrow>[0..<H - Suc 0]. \<Sum>j\<leftarrow>[0..<W]. D i j)
           + (\<Sum>i\<leftarrow>[0..<H]. \<Sum>j\<leftarrow>[0..<W - Suc 0]. L i j)
           + (\<Sum>i\<leftarrow>[0..<H]. \<Sum>j\<leftarrow>[0..<W - Suc 0]. R i j)"
    by (simp only: guard_last guard_first [where c = "\<lambda>i. \<Sum>j\<leftarrow>[0..<W]. U i j"])
  finally show ?thesis .
qed

lemma roughness_sums_double:
  assumes "length wg = H" and "(case wg of [] \<Rightarrow> 0 | r # _ \<Rightarrow> length r) = W"
  shows "roughness_sums wg =
          (2 * sum_list (map (edge_dist_sq wg) (edges H W)), 2 * length (edges H W))"
proof -
  have total: "fst (roughness_sums wg) = 2 * sum_list (map (edge_dist_sq wg) (edges H W))"
    using grid_sum_four [where H = H and W = W
        and U = "\<lambda>i j. dist_sq (wg ! Suc i ! j) (wg ! i ! j)"
        and D = "\<lambda>i j. dist_sq (wg ! i ! j) (wg ! Suc i ! j)"
        and L = "\<lambda>i j. dist_sq (wg ! i ! Suc j) (wg ! i ! j)"
        and R = "\<lambda>i j. dist_sq (wg ! i ! j) (wg ! i ! Suc j)"]
    by (simp add: roughness_sums_raw assms neighbors_sum edges_sum less_diff_conv
        dist_sq_sym [of "wg ! Suc _ ! _" "wg ! _ ! _"] dist_sq_sym [of "wg ! _ ! Suc _" "wg ! _ ! _"]
        cong: if_cong)
  have count: "snd (roughness_sums wg) = 2 * length (edges H W)"
    using grid_sum_four [where H = H and W = W
        and U = "\<lambda>i j. 1::nat" and D = "\<lambda>i j. 1::nat"
        and L = "\<lambda>i j. 1::nat" and R = "\<lambda>i j. 1::nat"]
    by (simp add: roughness_sums_raw assms neighbors_length edges_length sum_list_const_nat
        less_diff_conv)
  from total count show ?thesis by (simp add: prod_eq_iff)
qed

text \<open>
  Claim C10, as the code has it. On a map of shape \<open>gridsize\<close> with at least one pair
  of adjacent units the roughness visits every edge from both ends: its pair count is
  twice the edge count of the distortion and, in exact arithmetic, its sum is twice the
  sum of the distortion, so that over the real numbers
  \<^verbatim>\<open>distorsion_locale_moyenne(network)\<close> and
  \<^verbatim>\<open>compute_local_roughness(numpy.array(network.weightsmap))\<close> coincide.
\<close>

theorem C10_roughness_equals_distortion:
  assumes shape: "grid_shape net"
    and pairs: "edges (fst (gridsize net)) (snd (gridsize net)) \<noteq> []"
  shows "snd (roughness_sums (weightsmap net)) = 2 * snd (distorsion_sums net)
         \<and> fst (roughness_sums (weightsmap net)) = 2 * fst (distorsion_sums net)
         \<and> distorsion_locale_moyenne net = Inr (compute_local_roughness (weightsmap net))"
proof -
  let ?H = "fst (gridsize net)" and ?W = "snd (gridsize net)" and ?wg = "weightsmap net"
  let ?t = "sum_list (map (edge_dist_sq ?wg) (edges ?H ?W))" and ?c = "length (edges ?H ?W)"
  have len: "length ?wg = ?H"
    using shape by (simp add: grid_shape_def weightsmap_def)
  have "0 < ?H" using pairs by (auto simp add: edges_nonempty)
  with len obtain r rest where wg: "?wg = r # rest" by (cases ?wg) auto
  have "r \<in> set ?wg" by (simp add: wg)
  then have "length r = ?W"
    using shape by (auto simp add: grid_shape_def weightsmap_def)
  then have width: "(case ?wg of [] \<Rightarrow> 0 | r # _ \<Rightarrow> length r) = ?W"
    by (simp add: wg)
  have c: "0 < ?c" using pairs by simp
  have rough: "roughness_sums ?wg = (2 * ?t, 2 * ?c)"
    by (rule roughness_sums_double [OF len width])
  have dist: "distorsion_sums net = (?t, ?c)"
    by (rule distorsion_sums_edges)
  have "compute_local_roughness ?wg = ?t / real ?c"
    using c by (simp add: compute_local_roughness_def rough)
  moreover have "distorsion_locale_moyenne net = Inr (?t / real ?c)"
    using c by (simp add: distorsion_locale_moyenne_def dist py_div_def)
  ultimately show ?thesis by (simp add: rough dist)
qed

theorem C10_roughness_equals_distortion_witness:
  "grid_shape som_line
   \<and> edges (fst (gridsize som_line)) (snd (gridsize som_line)) \<noteq> []
   \<and> snd (roughness_sums (weightsmap som_line)) = 2 * snd (distorsion_sums som_line)
   \<and> fst (roughness_sums (weightsmap som_line)) = 2 * fst (distorsion_sums som_line)
   \<and> distorsion_locale_moyenne som_line = Inr (compute_local_roughness (weightsmap som_line))"
proof -
  have shape: "grid_shape som_line" by (simp add: grid_shape_def som_line_def)
  have pairs: "edges (fst (gridsize som_line)) (snd (gridsize som_line)) \<noteq> []"
    by (simp add: som_line_def edges_1_2)
  from C10_roughness_equals_distortion [OF shape pairs] shape pairs show ?thesis by simp
qed

subsection \<open>The two averages in binary64 arithmetic\<close>

text \<open>
  Evaluation of the rounding at a number \<open>x\<close> whose binary exponent \<open>e\<close> is known,
  and at the numbers that the example below meets. The last two are the only ones that
  are not binary64 numbers already: \<open>1 + 9 / 2 ^ 56\<close> lies above the middle of \<open>1\<close> and
  its successor \<open>1 + 1 / 2 ^ 52\<close>, and \<open>2 + 9 / 2 ^ 56\<close> lies below the middle of \<open>2\<close>
  and its successor \<open>2 + 1 / 2 ^ 51\<close>.
\<close>

lemma f64_eval:
  assumes "2 powi e \<le> \<bar>x\<bar>" and "\<bar>x\<bar> < 2 powi (e + 1)"
  shows "f64 x = of_int (round_even (x / 2 powi (e - 52))) * 2 powi (e - 52)"
proof -
  have pos: "0 < \<bar>x\<bar>"
    using assms(1) by (smt (verit) zero_less_power_int)
  have lo: "2 powr real_of_int e \<le> \<bar>x\<bar>"
    using assms(1) by (simp add: powr_real_of_int')
  have "2 powr real_of_int (e + 1) = (2::real) powi (e + 1)"
    by (rule powr_real_of_int') simp_all
  then have hi: "\<bar>x\<bar> < 2 powr (real_of_int e + 1)"
    using assms(2) by simp
  have "\<lfloor>log 2 \<bar>x\<bar>\<rfloor> = e"
    using floor_log_eq_powr_iff [of "\<bar>x\<bar>" 2 e] pos lo hi by simp
  with pos show ?thesis by (simp add: f64_def Let_def)
qed

text \<open>
  The rounding agrees with binary64 on the decimal \<open>0.1\<close> and breaks ties towards the
  even significand.
\<close>

lemma f64_tenth: "f64 (1 / 10) = 3602879701896397 / 36028797018963968"
  by (subst f64_eval [where e = "- 4"]) (simp_all add: round_even_def)

lemma f64_tie_even: "f64 (1 + 1 / 9007199254740992) = 1"
  by (subst f64_eval [where e = 0]) (simp_all add: round_even_def)

lemma f64_tie_odd: "f64 (1 + 3 / 9007199254740992) = 1 + 2 / 4503599627370496"
  by (subst f64_eval [where e = 0]) (simp_all add: round_even_def)

lemma f64_0: "f64 0 = 0"
  by (simp add: f64_def)

lemma f64_1: "f64 1 = 1"
  by (subst f64_eval [where e = 0]) (simp_all add: round_even_def)

lemma f64_2: "f64 2 = 2"
  by (subst f64_eval [where e = 1]) (simp_all add: round_even_def)

lemma f64_m1: "f64 (- 1) = - 1"
  by (subst f64_eval [where e = 0]) (simp_all add: round_even_def)

lemma f64_half: "f64 (1 / 2) = 1 / 2"
  by (subst f64_eval [where e = "- 1"]) (simp_all add: round_even_def)

lemma f64_d: "f64 (3 / 268435456) = 3 / 268435456"
  by (subst f64_eval [where e = "- 27"]) (simp_all add: round_even_def)

lemma f64_md: "f64 (- (3 / 268435456)) = - (3 / 268435456)"
  by (subst f64_eval [where e = "- 27"]) (simp_all add: round_even_def)

lemma f64_dd: "f64 (9 / 72057594037927936) = 9 / 72057594037927936"
  by (subst f64_eval [where e = "- 53"]) (simp_all add: round_even_def)

lemma f64_w2: "f64 (268435459 / 268435456) = 268435459 / 268435456"
  by (subst f64_eval [where e = 0]) (simp_all add: round_even_def)

lemma f64_up: "f64 (1 + 9 / 72057594037927936) = 1 + 1 / 4503599627370496"
  by (subst f64_eval [where e = 0]) (simp_all add: round_even_def)

lemma f64_down: "f64 (2 + 9 / 72057594037927936) = 2"
  by (subst f64_eval [where e = 1]) (simp_all add: round_even_def)

lemma sqrt_dd: "sqrt (9 / 72057594037927936) = 3 / 268435456"
  using real_sqrt_abs [of "3 / 268435456"] by (simp add: power2_eq_square)

lemma dist_sq_f64_single:
  "dist_sq_f64 [a] [b] = f64 ((f64 (sqrt (f64 (f64 (f64 (a - b) * f64 (a - b))))))\<^sup>2)"
  by (simp add: dist_sq_f64_def linalg_norm_f64_def)

lemma d01: "dist_sq_f64 [0] [1] = 1"
  by (simp add: dist_sq_f64_single f64_1 f64_m1)

lemma d10: "dist_sq_f64 [1] [0] = 1"
  by (simp add: dist_sq_f64_single f64_1)

lemma d12: "dist_sq_f64 [1] [268435459 / 268435456] = 9 / 72057594037927936"
  by (simp add: dist_sq_f64_single f64_md f64_dd sqrt_dd f64_d power2_eq_square)

lemma d21: "dist_sq_f64 [268435459 / 268435456] [1] = 9 / 72057594037927936"
  by (simp add: dist_sq_f64_single f64_d f64_dd sqrt_dd power2_eq_square)

lemma upt_3: "[0..<3] = [0, 1, 2]"
  by (simp add: upt_rec)

lemma f64_up': "f64 (72057594037927945 / 72057594037927936) = 4503599627370497 / 4503599627370496"
  using f64_up by simp

lemma f64_down': "f64 (144115188075855881 / 72057594037927936) = 2"
  using f64_down by simp

lemma dsum: "distorsion_sums_f64 som_row3 = (4503599627370497 / 4503599627370496, 2)"
  by (simp add: distorsion_sums_f64_def som_row3_def weightsmap_def upt_3 d01 d12 f64_1 f64_up')

lemma rsum: "roughness_sums_f64 (weightsmap som_row3) = (2, 4)"
  by (simp add: roughness_sums_f64_def som_row3_def weightsmap_def upt_3 neighbors_def
      d01 d10 d12 d21 f64_1 f64_2 f64_down')

lemma f64_res: "f64 (4503599627370497 / 9007199254740992) = 4503599627370497 / 9007199254740992"
  by (subst f64_eval [where e = "- 1"]) (simp_all add: round_even_def)

text \<open>
  The equality of the claim is not one of the values that the program returns. On the
  map of one row with the weights \<open>0\<close>, \<open>1\<close> and \<open>1 + 3 / 2 ^ 28\<close> the squared distances
  \<open>1\<close> and \<open>9 / 2 ^ 56\<close> are exact. The distortion adds them to
  \<open>1 + 1 / 2 ^ 52\<close> and returns \<open>1 / 2 + 1 / 2 ^ 53\<close>; the roughness adds
  \<open>1 + 1 = 2\<close> and then twice \<open>9 / 2 ^ 56\<close>, each time rounding back to \<open>2\<close>, and
  returns \<open>1 / 2\<close>.
\<close>

theorem C10_counterexample:
  "distorsion_locale_moyenne_f64 som_row3 = Inr (4503599627370497 / 9007199254740992)
   \<and> compute_local_roughness_f64 (weightsmap som_row3) = 1 / 2
   \<and> distorsion_locale_moyenne_f64 som_row3
        \<noteq> Inr (compute_local_roughness_f64 (weightsmap som_row3))"
  by (simp add: distorsion_locale_moyenne_f64_def compute_local_roughness_f64_def dsum rsum
      f64_half f64_res)


subsection \<open>An empty data set\<close>

text \<open>
  Claim C3, as the code has it. \<^verbatim>\<open>SOM.quantification\<close> has no guard and there is no
  \<^verbatim>\<open>EmptyDataset\<close> exception: on a data set without samples the loop does not run, the
  division \<^verbatim>\<open>s/nsamples\<close> is performed on the Python integers \<^verbatim>\<open>0\<close> and \<^verbatim>\<open>0\<close>, and it is
  this division that raises \<^verbatim>\<open>ZeroDivisionError\<close>. The map is left as it was.
\<close>

theorem C3_quantification_empty:
  "SOM_quantification s [] = (s, Inl ZeroDivisionError)"
  by (simp add: SOM_quantification_def py_div_def)

text \<open>
  On the map with a single unit and no sample the result is the result of the division
  by zero itself.
\<close>

theorem C3_counterexample:
  "SOM_quantification som_dot [] = (som_dot, py_div 0 0) \<and> py_div 0 0 = Inl ZeroDivisionError"
  by (simp add: SOM_quantification_def py_div_def)

subsection \<open>One pass of compute and learn\<close>

lemma foreach_append:
  "foreach (as @ bs) body s =
     (case foreach as body s of
        (s', None) \<Rightarrow> foreach bs body s'
      | (s', Some e) \<Rightarrow> (s', Some e))"
  by (induction as arbitrary: s) (auto split: prod.splits option.splits)

lemma foreach_single: "foreach [a] body s = body a s"
  by (auto split: prod.splits option.splits)

lemma foreach_upt_Suc:
  "foreach [0..<Suc k] body s =
     (case foreach [0..<k] body s of
        (s', None) \<Rightarrow> body k s'
      | (s', Some e) \<Rightarrow> (s', Some e))"
  by (simp add: foreach_append foreach_single del: foreach.simps
      split: prod.splits option.splits)

lemma take_drop_update:
  assumes "k < length xs" and "k < length ys"
  shows "(map F (take k xs) @ drop k ys)[k := F (xs ! k)]
           = map F (take (Suc k) xs) @ drop (Suc k) ys"
  using assms
  by (simp add: list_update_append take_Suc_conv_app_nth
      Cons_nth_drop_Suc [symmetric, of k ys])

lemma take_drop_nth:
  assumes "k < length ys" and "k \<le> length xs"
  shows "(map F (take k xs) @ drop k ys) ! k = ys ! k"
  using assms by (simp add: nth_append)

lemma compute_row:
  assumes "i < length (som_map t)" and "i < length (activitymap t)"
    and "length (activitymap t ! i) = length (som_map t ! i)"
    and "\<forall>n \<in> set (som_map t ! i). \<exists>n'. Neuron_compute n x = Inr n'"
    and "k \<le> length (som_map t ! i)"
  shows "foreach [0..<k] (\<lambda>posy. compute_cell x i posy) t =
          (t\<lparr>som_map := (som_map t)
                 [i := map (\<lambda>n. projr (Neuron_compute n x)) (take k (som_map t ! i))
                       @ drop k (som_map t ! i)],
              activitymap := (activitymap t)
                 [i := map (\<lambda>n. y (projr (Neuron_compute n x))) (take k (som_map t ! i))
                       @ drop k (activitymap t ! i)]\<rparr>,
           None)"
  using assms(5)
proof (induction k)
  case 0
  then show ?case by simp
next
  case (Suc k)
  let ?row = "som_map t ! i" and ?arow = "activitymap t ! i"
  let ?f = "\<lambda>n. projr (Neuron_compute n x)"
  let ?g = "\<lambda>n. y (projr (Neuron_compute n x))"
  let ?tk = "t\<lparr>som_map := (som_map t)[i := map ?f (take k ?row) @ drop k ?row],
               activitymap := (activitymap t)[i := map ?g (take k ?row) @ drop k ?arow]\<rparr>"
  from Suc.prems have k: "k < length ?row" by simp
  then have ka: "k < length ?arow" using assms(3) by simp
  from k assms(4) obtain n' where n': "Neuron_compute (?row ! k) x = Inr n'"
    using nth_mem by blast
  have loop: "foreach [0..<k] (\<lambda>posy. compute_cell x i posy) t = (?tk, None)"
    using Suc.IH k by simp
  have cell: "compute_cell x i k ?tk =
      (t\<lparr>som_map := (som_map t)[i := map ?f (take (Suc k) ?row) @ drop (Suc k) ?row],
         activitymap := (activitymap t)[i := map ?g (take (Suc k) ?row) @ drop (Suc k) ?arow]\<rparr>,
       None)"
    using assms(1,2) k ka n'
    by (simp add: compute_cell_def Let_def take_drop_nth take_drop_update [symmetric])
  show ?case
    by (simp only: foreach_upt_Suc loop cell prod.case option.case)
qed


lemma compute_rows:
  assumes "length (activitymap s) = length (som_map s)"
    and "\<forall>row \<in> set (som_map s). length row = w"
    and "\<forall>row \<in> set (activitymap s). length row = w"
    and "\<forall>row \<in> set (som_map s). \<forall>n \<in> set row. \<exists>n'. Neuron_compute n x = Inr n'"
    and "k \<le> length (som_map s)"
  shows "foreach [0..<k] (\<lambda>posx. foreach [0..<w] (\<lambda>posy. compute_cell x posx posy)) s =
          (s\<lparr>som_map := map (map (\<lambda>n. projr (Neuron_compute n x))) (take k (som_map s))
                          @ drop k (som_map s),
              activitymap := map (map (\<lambda>n. y (projr (Neuron_compute n x)))) (take k (som_map s))
                          @ drop k (activitymap s)\<rparr>,
           None)"
  using assms(5)
proof (induction k)
  case 0
  then show ?case by simp
next
  case (Suc k)
  let ?sm = "som_map s" and ?am = "activitymap s"
  let ?f = "\<lambda>n. projr (Neuron_compute n x)"
  let ?g = "\<lambda>n. y (projr (Neuron_compute n x))"
  let ?tk = "s\<lparr>som_map := map (map ?f) (take k ?sm) @ drop k ?sm,
               activitymap := map (map ?g) (take k ?sm) @ drop k ?am\<rparr>"
  from Suc.prems have k: "k < length ?sm" by simp
  then have ka: "k < length ?am" using assms(1) by simp
  have row: "(map (map ?f) (take k ?sm) @ drop k ?sm) ! k = ?sm ! k"
    using k by (simp add: take_drop_nth)
  have arow: "(map (map ?g) (take k ?sm) @ drop k ?am) ! k = ?am ! k"
    using k ka by (simp add: take_drop_nth)
  have len: "length (?sm ! k) = w" using assms(2) k nth_mem by blast
  have alen: "length (?am ! k) = w" using assms(3) ka nth_mem by blast
  have ok: "\<forall>n \<in> set (?sm ! k). \<exists>n'. Neuron_compute n x = Inr n'"
    using assms(4) k nth_mem by blast
  have loop: "foreach [0..<k] (\<lambda>posx. foreach [0..<w] (\<lambda>posy. compute_cell x posx posy)) s
                = (?tk, None)"
    using Suc.IH k by simp
  have "foreach [0..<w] (\<lambda>posy. compute_cell x k posy) ?tk =
          (?tk\<lparr>som_map := (som_map ?tk)
                 [k := map ?f (take w (som_map ?tk ! k)) @ drop w (som_map ?tk ! k)],
              activitymap := (activitymap ?tk)
                 [k := map ?g (take w (som_map ?tk ! k)) @ drop w (activitymap ?tk ! k)]\<rparr>,
           None)"
    by (rule compute_row) (use k ka len alen ok in \<open>simp_all add: row arow\<close>)
  also have "\<dots> =
      (s\<lparr>som_map := map (map ?f) (take (Suc k) ?sm) @ drop (Suc k) ?sm,
         activitymap := map (map ?g) (take (Suc k) ?sm) @ drop (Suc k) ?am\<rparr>,
       None)"
    using k ka len alen
      take_drop_update [of k ?sm ?sm "map ?f"] take_drop_update [of k ?sm ?am "map ?g"]
    by (simp add: row arow)
  finally have row_loop: "foreach [0..<w] (\<lambda>posy. compute_cell x k posy) ?tk =
      (s\<lparr>som_map := map (map ?f) (take (Suc k) ?sm) @ drop (Suc k) ?sm,
         activitymap := map (map ?g) (take (Suc k) ?sm) @ drop (Suc k) ?am\<rparr>,
       None)" .
  show ?case
    by (simp only: foreach_upt_Suc loop row_loop prod.case option.case)
qed

lemma SOM_compute_ok:
  assumes "grid_shape s"
    and "\<forall>row \<in> set (som_map s). \<forall>n \<in> set row. \<exists>n'. Neuron_compute n x = Inr n'"
  shows "SOM_compute s x =
          (s\<lparr>som_map := map (map (\<lambda>n. projr (Neuron_compute n x))) (som_map s),
              activitymap := map (map (\<lambda>n. y (projr (Neuron_compute n x)))) (som_map s)\<rparr>,
           None)"
proof -
  have "foreach [0..<length (som_map s)]
          (\<lambda>posx. foreach [0..<snd (gridsize s)] (\<lambda>posy. compute_cell x posx posy)) s =
          (s\<lparr>som_map := map (map (\<lambda>n. projr (Neuron_compute n x)))
                            (take (length (som_map s)) (som_map s))
                          @ drop (length (som_map s)) (som_map s),
              activitymap := map (map (\<lambda>n. y (projr (Neuron_compute n x))))
                            (take (length (som_map s)) (som_map s))
                          @ drop (length (som_map s)) (activitymap s)\<rparr>,
           None)"
    by (rule compute_rows) (use assms in \<open>simp_all add: grid_shape_def\<close>)
  then show ?thesis
    using assms(1) by (simp add: SOM_compute_def grid_shape_def)
qed


lemma learn_row:
  assumes "i < length (som_map t)"
    and "\<forall>n \<in> set (som_map t ! i). \<exists>n'. Neuron_learn n eta sigma (int bi) (int bj) x = Inr n'"
    and "k \<le> length (som_map t ! i)"
  shows "foreach [0..<k] (\<lambda>posy. learn_cell eta sigma bi bj x i posy) t =
          (t\<lparr>som_map := (som_map t)
                 [i := map (\<lambda>n. projr (Neuron_learn n eta sigma (int bi) (int bj) x))
                         (take k (som_map t ! i))
                       @ drop k (som_map t ! i)]\<rparr>,
           None)"
  using assms(3)
proof (induction k)
  case 0
  then show ?case by simp
next
  case (Suc k)
  let ?row = "som_map t ! i"
  let ?f = "\<lambda>n. projr (Neuron_learn n eta sigma (int bi) (int bj) x)"
  let ?tk = "t\<lparr>som_map := (som_map t)[i := map ?f (take k ?row) @ drop k ?row]\<rparr>"
  from Suc.prems have k: "k < length ?row" by simp
  from k assms(2) obtain n' where n': "Neuron_learn (?row ! k) eta sigma (int bi) (int bj) x = Inr n'"
    using nth_mem by blast
  have loop: "foreach [0..<k] (\<lambda>posy. learn_cell eta sigma bi bj x i posy) t = (?tk, None)"
    using Suc.IH k by simp
  have cell: "learn_cell eta sigma bi bj x i k ?tk =
      (t\<lparr>som_map := (som_map t)[i := map ?f (take (Suc k) ?row) @ drop (Suc k) ?row]\<rparr>, None)"
    using assms(1) k n'
    by (simp add: learn_cell_def take_drop_nth take_drop_update [symmetric])
  show ?case
    by (simp only: foreach_upt_Suc loop cell prod.case option.case)
qed

lemma learn_rows:
  assumes "\<forall>row \<in> set (som_map s). length row = w"
    and "\<forall>row \<in> set (som_map s). \<forall>n \<in> set row.
           \<exists>n'. Neuron_learn n eta sigma (int bi) (int bj) x = Inr n'"
    and "k \<le> length (som_map s)"
  shows "foreach [0..<k]
           (\<lambda>posx. foreach [0..<w] (\<lambda>posy. learn_cell eta sigma bi bj x posx posy)) s =
          (s\<lparr>som_map := map (map (\<lambda>n. projr (Neuron_learn n eta sigma (int bi) (int bj) x)))
                            (take k (som_map s))
                          @ drop k (som_map s)\<rparr>,
           None)"
  using assms(3)
proof (induction k)
  case 0
  then show ?case by simp
next
  case (Suc k)
  let ?sm = "som_map s"
  let ?f = "\<lambda>n. projr (Neuron_learn n eta sigma (int bi) (int bj) x)"
  let ?tk = "s\<lparr>som_map := map (map ?f) (take k ?sm) @ drop k ?sm\<rparr>"
  from Suc.prems have k: "k < length ?sm" by simp
  have row: "(map (map ?f) (take k ?sm) @ drop k ?sm) ! k = ?sm ! k"
    using k by (simp add: take_drop_nth)
  have len: "length (?sm ! k) = w" using assms(1) k nth_mem by blast
  have ok: "\<forall>n \<in> set (?sm ! k). \<exists>n'. Neuron_learn n eta sigma (int bi) (int bj) x = Inr n'"
    using assms(2) k nth_mem by blast
  have loop: "foreach [0..<k]
                (\<lambda>posx. foreach [0..<w] (\<lambda>posy. learn_cell eta sigma bi bj x posx posy)) s
                = (?tk, None)"
    using Suc.IH k by simp
  have "foreach [0..<w] (\<lambda>posy. learn_cell eta sigma bi bj x k posy) ?tk =
          (?tk\<lparr>som_map := (som_map ?tk)
                 [k := map ?f (take w (som_map ?tk ! k)) @ drop w (som_map ?tk ! k)]\<rparr>,
           None)"
    by (rule learn_row) (use k len ok in \<open>simp_all add: row\<close>)
  also have "\<dots> = (s\<lparr>som_map := map (map ?f) (take (Suc k) ?sm) @ drop (Suc k) ?sm\<rparr>, None)"
    using k len take_drop_update [of k ?sm ?sm "map ?f"]
    by (simp add: row)
  finally have row_loop:
    "foreach [0..<w] (\<lambda>posy. learn_cell eta sigma bi bj x k posy) ?tk =
       (s\<lparr>som_map := map (map ?f) (take (Suc k) ?sm) @ drop (Suc k) ?sm\<rparr>, None)" .
  show ?case
    by (simp only: foreach_upt_Suc loop row_loop prod.case option.case)
qed

lemma SOM_learn_ok:
  assumes "grid_shape s" and "learn_bmu s = Inr (bi, bj)"
    and "\<forall>row \<in> set (som_map s). \<forall>n \<in> set row.
           \<exists>n'. Neuron_learn n eta sigma (int bi) (int bj) x = Inr n'"
  shows "SOM_learn s eta sigma x =
          (s\<lparr>som_map := map (map (\<lambda>n. projr (Neuron_learn n eta sigma (int bi) (int bj) x)))
                            (som_map s)\<rparr>,
           None)"
proof -
  have "foreach [0..<length (som_map s)]
          (\<lambda>posx. foreach [0..<snd (gridsize s)]
                    (\<lambda>posy. learn_cell eta sigma bi bj x posx posy)) s =
          (s\<lparr>som_map := map (map (\<lambda>n. projr (Neuron_learn n eta sigma (int bi) (int bj) x)))
                            (take (length (som_map s)) (som_map s))
                          @ drop (length (som_map s)) (som_map s)\<rparr>,
           None)"
    by (rule learn_rows) (use assms in \<open>simp_all add: grid_shape_def\<close>)
  then show ?thesis
    using assms(1,2) by (simp add: SOM_learn_def grid_shape_def)
qed

lemma Neuron_learn_ok:
  assumes "length x = length (weights n)"
  shows "Neuron_learn n eta sigma bx bj x =
    Inr (n\<lparr>weights := map2 (\<lambda>w xv. w + eta
               * exp (- real_of_int ((posx n - bx)\<^sup>2 + (posy n - bj)\<^sup>2) / (2 * sigma * sigma))
               * (xv - w)) (weights n) x\<rparr>)"
proof -
  have aux: "map2 (+) ws (map (\<lambda>t. c * t) (map2 (-) xs ws)) = map2 (\<lambda>w xv. w + c * (xv - w)) ws xs"
    if "length xs = length ws" for xs ws :: "real list" and c
    using that by (induction xs ws rule: list_induct2) simp_all
  have sub: "broadcast (-) x (weights n) = Inr (map2 (-) x (weights n))"
    using assms by (simp add: broadcast_same_length)
  have add: "broadcast (+) (weights n) (map (\<lambda>t. c * t) (map2 (-) x (weights n)))
               = Inr (map2 (\<lambda>w xv. w + c * (xv - w)) (weights n) x)" for c
    using assms aux [of x "weights n" c] by (simp add: broadcast_same_length)
  have asg: "assign_slice (weights n) (map2 (\<lambda>w xv. w + c * (xv - w)) (weights n) x)
               = Inr (map2 (\<lambda>w xv. w + c * (xv - w)) (weights n) x)" for c
    using assms by (simp add: assign_slice_def)
  show ?thesis
    unfolding Neuron_learn_def Let_def
    by (simp only: sub add asg sum.case)
qed

lemma Neuron_compute_ok:
  assumes "length x = length (weights n)"
  shows "Neuron_compute n x = Inr (n\<lparr>y := linalg_norm (map2 (-) (weights n) x)\<rparr>)"
  using assms by (simp add: Neuron_compute_def broadcast_same_length)

lemma grid_cell_mem:
  assumes "grid_shape s" and "i < fst (gridsize s)" and "j < snd (gridsize s)"
  shows "i < length (som_map s)" and "j < length (som_map s ! i)"
    and "som_map s ! i \<in> set (som_map s)" and "som_map s ! i ! j \<in> set (som_map s ! i)"
proof -
  from assms(1,2) show i: "i < length (som_map s)" by (simp add: grid_shape_def)
  then show row: "som_map s ! i \<in> set (som_map s)" by simp
  with assms(1,3) show j: "j < length (som_map s ! i)" by (simp add: grid_shape_def)
  then show "som_map s ! i ! j \<in> set (som_map s ! i)" by simp
qed

lemma compute_pass:
  assumes shape: "grid_shape s" and dim: "dimension_ok s x"
  shows "\<exists>s1. SOM_compute s x = (s1, None) \<and> grid_shape s1 \<and> dimension_ok s1 x
           \<and> gridsize s1 = gridsize s \<and> positions_ok s1 = positions_ok s
           \<and> (\<forall>x'. dimension_ok s1 x' = dimension_ok s x')
           \<and> (\<forall>i<fst (gridsize s). \<forall>j<snd (gridsize s).
                 som_map s1 ! i ! j =
                   (som_map s ! i ! j)\<lparr>y := linalg_norm (map2 (-) (weights (som_map s ! i ! j)) x)\<rparr>)"
proof -
  let ?f = "\<lambda>n. projr (Neuron_compute n x)"
  let ?s1 = "s\<lparr>som_map := map (map ?f) (som_map s),
               activitymap := map (map (\<lambda>n. y (?f n))) (som_map s)\<rparr>"
  have f: "?f n = n\<lparr>y := linalg_norm (map2 (-) (weights n) x)\<rparr>"
    if "row \<in> set (som_map s)" "n \<in> set row" for row n
    using that dim by (simp add: dimension_ok_def Neuron_compute_ok)
  have ok: "\<forall>row \<in> set (som_map s). \<forall>n \<in> set row. \<exists>n'. Neuron_compute n x = Inr n'"
    using dim by (simp add: dimension_ok_def Neuron_compute_ok)
  have run: "SOM_compute s x = (?s1, None)"
    by (rule SOM_compute_ok [OF shape ok])
  have shape1: "grid_shape ?s1"
    using shape by (simp add: grid_shape_def)
  have dim1: "dimension_ok ?s1 x"
    using dim f by (auto simp add: dimension_ok_def)
  have cells: "som_map ?s1 ! i ! j =
       (som_map s ! i ! j)\<lparr>y := linalg_norm (map2 (-) (weights (som_map s ! i ! j)) x)\<rparr>"
    if "i < fst (gridsize s)" "j < snd (gridsize s)" for i j
  proof -
    note m = grid_cell_mem [OF shape that]
    from f [OF m(3,4)] m(1,2) show ?thesis by simp
  qed
  have pos: "positions_ok ?s1 = positions_ok s"
  proof -
    have "posx (?f (som_map s ! i ! j)) = posx (som_map s ! i ! j)
          \<and> posy (?f (som_map s ! i ! j)) = posy (som_map s ! i ! j)"
      if "i < length (som_map s)" "j < length (som_map s ! i)" for i j
      using f [of "som_map s ! i" "som_map s ! i ! j"] nth_mem [OF that(1)] nth_mem [OF that(2)]
      by simp
    then show ?thesis by (auto simp add: positions_ok_def)
  qed
  have dims: "dimension_ok ?s1 x' = dimension_ok s x'" for x'
    using f by (auto simp add: dimension_ok_def)
  from run shape1 dim1 cells pos dims show ?thesis by (intro exI [of _ ?s1]) simp
qed


lemma learn_pass:
  assumes shape: "grid_shape s" and dim: "dimension_ok s x"
    and h: "0 < fst (gridsize s)" and w: "0 < snd (gridsize s)"
  shows "\<exists>bi bj s2. learn_bmu s = Inr (bi, bj) \<and> bi < fst (gridsize s) \<and> bj < snd (gridsize s)
           \<and> SOM_learn s eta sigma x = (s2, None) \<and> grid_shape s2 \<and> dimension_ok s2 x
           \<and> gridsize s2 = gridsize s \<and> positions_ok s2 = positions_ok s
           \<and> (\<forall>x'. dimension_ok s2 x' = dimension_ok s x')
           \<and> (\<forall>i<fst (gridsize s). \<forall>j<snd (gridsize s).
                 Neuron_learn (som_map s ! i ! j) eta sigma (int bi) (int bj) x
                   = Inr (som_map s2 ! i ! j)
                 \<and> som_map s2 ! i ! j =
                   (som_map s ! i ! j)\<lparr>weights :=
                      map2 (\<lambda>w xv. w + eta
                              * exp (- real_of_int ((posx (som_map s ! i ! j) - int bi)\<^sup>2
                                                   + (posy (som_map s ! i ! j) - int bj)\<^sup>2)
                                     / (2 * sigma * sigma))
                              * (xv - w))
                        (weights (som_map s ! i ! j)) x\<rparr>)"
proof -
  from learn_bmu_spec [OF shape h w] obtain bi bj
    where bmu: "learn_bmu s = Inr (bi, bj)" and bi: "bi < fst (gridsize s)"
      and bj: "bj < snd (gridsize s)"
    by blast
  let ?f = "\<lambda>n. projr (Neuron_learn n eta sigma (int bi) (int bj) x)"
  let ?s2 = "s\<lparr>som_map := map (map ?f) (som_map s)\<rparr>"
  have len: "length x = length (weights n)"
    if "row \<in> set (som_map s)" "n \<in> set row" for row n
    using that dim by (simp add: dimension_ok_def)
  have res: "Neuron_learn n eta sigma (int bi) (int bj) x = Inr (?f n)"
    if "row \<in> set (som_map s)" "n \<in> set row" for row n
    using Neuron_learn_ok [OF len [OF that]] by simp
  have f: "?f n = n\<lparr>weights :=
              map2 (\<lambda>w xv. w + eta
                      * exp (- real_of_int ((posx n - int bi)\<^sup>2 + (posy n - int bj)\<^sup>2)
                             / (2 * sigma * sigma))
                      * (xv - w))
                (weights n) x\<rparr>"
    if "row \<in> set (som_map s)" "n \<in> set row" for row n
    using Neuron_learn_ok [OF len [OF that]] by simp
  have ok: "\<forall>row \<in> set (som_map s). \<forall>n \<in> set row.
              \<exists>n'. Neuron_learn n eta sigma (int bi) (int bj) x = Inr n'"
    using res by blast
  have run: "SOM_learn s eta sigma x = (?s2, None)"
    by (rule SOM_learn_ok [OF shape bmu ok])
  have shape2: "grid_shape ?s2"
    using shape by (simp add: grid_shape_def)
  have dim2: "dimension_ok ?s2 x"
    using len f by (auto simp add: dimension_ok_def)
  have cells: "Neuron_learn (som_map s ! i ! j) eta sigma (int bi) (int bj) x
                   = Inr (som_map ?s2 ! i ! j)
       \<and> som_map ?s2 ! i ! j =
          (som_map s ! i ! j)\<lparr>weights :=
             map2 (\<lambda>w xv. w + eta
                     * exp (- real_of_int ((posx (som_map s ! i ! j) - int bi)\<^sup>2
                                          + (posy (som_map s ! i ! j) - int bj)\<^sup>2)
                            / (2 * sigma * sigma))
                     * (xv - w))
               (weights (som_map s ! i ! j)) x\<rparr>"
    if "i < fst (gridsize s)" "j < snd (gridsize s)" for i j
  proof -
    note m = grid_cell_mem [OF shape that]
    from res [OF m(3,4)] f [OF m(3,4)] m(1,2) show ?thesis by simp
  qed
  have pos: "positions_ok ?s2 = positions_ok s"
  proof -
    have "posx (?f (som_map s ! i ! j)) = posx (som_map s ! i ! j)
          \<and> posy (?f (som_map s ! i ! j)) = posy (som_map s ! i ! j)"
      if "i < length (som_map s)" "j < length (som_map s ! i)" for i j
      using f [of "som_map s ! i" "som_map s ! i ! j"] nth_mem [OF that(1)] nth_mem [OF that(2)]
      by simp
    then show ?thesis by (auto simp add: positions_ok_def)
  qed
  have dims: "dimension_ok ?s2 x' = dimension_ok s x'" for x'
    using len f by (auto simp add: dimension_ok_def)
  from bmu bi bj run shape2 dim2 cells pos dims show ?thesis
    by (intro exI [of _ bi] exI [of _ bj] exI [of _ ?s2]) simp
qed

subsection \<open>Learning at the winning unit\<close>

lemma norm_after_update:
  assumes "length ws = length xs"
  shows "linalg_norm (map2 (-) (map2 (\<lambda>w xv. w + c * (xv - w)) ws xs) xs)
           = \<bar>1 - c\<bar> * linalg_norm (map2 (-) ws xs)"
proof -
  have "(\<Sum>t\<leftarrow>map2 (-) (map2 (\<lambda>w xv. w + c * (xv - w)) ws xs) xs. t * t)
          = (1 - c)\<^sup>2 * (\<Sum>t\<leftarrow>map2 (-) ws xs. t * t)"
    using assms
  proof (induction ws xs rule: list_induct2)
    case Nil
    then show ?case by simp
  next
    case (Cons w ws xv xs)
    have "(w + c * (xv - w) - xv) * (w + c * (xv - w) - xv) = (1 - c)\<^sup>2 * ((w - xv) * (w - xv))"
      by (simp add: power2_eq_square algebra_simps)
    with Cons.IH show ?case by (simp add: distrib_left)
  qed
  then show ?thesis
    by (simp add: linalg_norm_def real_sqrt_mult)
qed

lemma linalg_norm_nonneg: "0 \<le> linalg_norm v"
  by (simp add: linalg_norm_def sum_sq_nonneg)

lemma som_line_shape: "grid_shape som_line"
  by (simp add: grid_shape_def som_line_def)

lemma som_line_positions: "positions_ok som_line"
  by (simp add: positions_ok_def som_line_def less_Suc_eq numeral_2_eq_2)

lemma som_line_dimension: "dimension_ok som_line [4]"
  by (simp add: dimension_ok_def som_line_def)

lemma som_line_compute:
  "SOM_compute som_line [4] =
     (som_line\<lparr>som_map := [[\<lparr>weights = [0], posx = 0, posy = 0, y = 4\<rparr>,
                              \<lparr>weights = [2], posx = 0, posy = 1, y = 2\<rparr>]],
               activitymap := [[4, 2]]\<rparr>, None)"
  by (simp add: SOM_compute_def som_line_def upt_rec compute_cell_def Neuron_compute_def
      broadcast_def linalg_norm_def sqrt_16)

lemma som_line_bmu:
  "learn_bmu (som_line\<lparr>som_map := [[\<lparr>weights = [0], posx = 0, posy = 0, y = 4\<rparr>,
                              \<lparr>weights = [2], posx = 0, posy = 1, y = 2\<rparr>]],
               activitymap := [[4, 2]]\<rparr>) = Inr (0, 1)"
  by (simp add: learn_bmu_def som_line_def argmin_def unravel_index_def)

text \<open>
  Claim C5, as the code has it. On a map with at least one unit whose units store
  their positions, for an input of the map's dimension, \<open>0 < eta \<le> 1\<close> and
  \<open>0 < sigma\<close>: \<^verbatim>\<open>compute\<close>, \<^verbatim>\<open>learn\<close> and \<^verbatim>\<open>compute\<close> again with the same input raise
  nothing, and the activation of the winning unit after the second \<^verbatim>\<open>compute\<close> is
  never larger than its activation after the first. It need not be smaller.
\<close>

theorem C5_bmu_activation_shrinks:
  assumes shape: "grid_shape s" and pos: "positions_ok s"
    and h: "0 < fst (gridsize s)" and w: "0 < snd (gridsize s)"
    and dim: "dimension_ok s x"
    and eta: "0 < eta" "eta \<le> 1" and sigma: "0 < sigma"
  shows "\<exists>s1 bi bj s2 s3.
           SOM_compute s x = (s1, None) \<and> learn_bmu s1 = Inr (bi, bj)
           \<and> SOM_learn s1 eta sigma x = (s2, None) \<and> SOM_compute s2 x = (s3, None)
           \<and> y (som_map s3 ! bi ! bj) \<le> y (som_map s1 ! bi ! bj)"
proof -
  let ?H = "fst (gridsize s)" and ?W = "snd (gridsize s)"
  from compute_pass [OF shape dim] obtain s1
    where run1: "SOM_compute s x = (s1, None)" and shape1: "grid_shape s1"
      and dim1: "dimension_ok s1 x" and gs1: "gridsize s1 = gridsize s"
      and pos1: "positions_ok s1 = positions_ok s"
      and cells1: "\<forall>i<?H. \<forall>j<?W. som_map s1 ! i ! j =
             (som_map s ! i ! j)\<lparr>y := linalg_norm (map2 (-) (weights (som_map s ! i ! j)) x)\<rparr>"
    by blast
  from learn_pass [OF shape1 dim1, of eta sigma] h w gs1 obtain bi bj s2
    where bmu: "learn_bmu s1 = Inr (bi, bj)" and bi: "bi < ?H" and bj: "bj < ?W"
      and run2: "SOM_learn s1 eta sigma x = (s2, None)" and shape2: "grid_shape s2"
      and dim2: "dimension_ok s2 x" and gs2: "gridsize s2 = gridsize s"
      and cells2: "\<forall>i<?H. \<forall>j<?W. som_map s2 ! i ! j =
             (som_map s1 ! i ! j)\<lparr>weights :=
                map2 (\<lambda>w xv. w + eta
                        * exp (- real_of_int ((posx (som_map s1 ! i ! j) - int bi)\<^sup>2
                                             + (posy (som_map s1 ! i ! j) - int bj)\<^sup>2)
                               / (2 * sigma * sigma))
                        * (xv - w))
                  (weights (som_map s1 ! i ! j)) x\<rparr>"
    by auto
  from compute_pass [OF shape2 dim2] gs2 obtain s3
    where run3: "SOM_compute s2 x = (s3, None)"
      and cells3: "\<forall>i<?H. \<forall>j<?W. som_map s3 ! i ! j =
             (som_map s2 ! i ! j)\<lparr>y := linalg_norm (map2 (-) (weights (som_map s2 ! i ! j)) x)\<rparr>"
    by auto
  let ?n0 = "som_map s ! bi ! bj"
  note m = grid_cell_mem [OF shape bi bj]
  have len: "length (weights ?n0) = length x"
    using dim m(3,4) by (simp add: dimension_ok_def)
  have at: "posx ?n0 = int bi" "posy ?n0 = int bj"
    using pos m(1,2) by (simp_all add: positions_ok_def)
  have y1: "y (som_map s1 ! bi ! bj) = linalg_norm (map2 (-) (weights ?n0) x)"
    using cells1 bi bj by simp
  have w2: "weights (som_map s2 ! bi ! bj)
              = map2 (\<lambda>w xv. w + eta * (xv - w)) (weights ?n0) x"
    using cells1 cells2 bi bj at by simp
  have "y (som_map s3 ! bi ! bj) = linalg_norm (map2 (-) (weights (som_map s2 ! bi ! bj)) x)"
    using cells3 bi bj by simp
  also have "\<dots> = \<bar>1 - eta\<bar> * linalg_norm (map2 (-) (weights ?n0) x)"
    by (simp only: w2 norm_after_update [OF len])
  finally have y3: "y (som_map s3 ! bi ! bj) = (1 - eta) * y (som_map s1 ! bi ! bj)"
    using eta y1 by simp
  have y1_nonneg: "0 \<le> y (som_map s1 ! bi ! bj)"
    by (simp only: y1 linalg_norm_nonneg)
  have le: "y (som_map s3 ! bi ! bj) \<le> y (som_map s1 ! bi ! bj)"
  proof -
    have "(1 - eta) * y (som_map s1 ! bi ! bj) \<le> 1 * y (som_map s1 ! bi ! bj)"
      using eta y1_nonneg by (intro mult_right_mono) simp_all
    with y3 show ?thesis by simp
  qed
  from run1 bmu run2 run3 le show ?thesis by blast
qed

theorem C5_bmu_activation_shrinks_witness:
  "grid_shape som_line \<and> positions_ok som_line
   \<and> 0 < fst (gridsize som_line) \<and> 0 < snd (gridsize som_line)
   \<and> dimension_ok som_line [4] \<and> (0::real) < 1 / 2 \<and> (1::real) / 2 \<le> 1 \<and> (0::real) < 1
   \<and> (\<exists>s1 s2 s3.
           SOM_compute som_line [4] = (s1, None) \<and> learn_bmu s1 = Inr (0, 1)
           \<and> SOM_learn s1 (1 / 2) 1 [4] = (s2, None) \<and> SOM_compute s2 [4] = (s3, None)
           \<and> y (som_map s1 ! 0 ! 1) = 2 \<and> y (som_map s3 ! 0 ! 1) \<le> 2)"
proof -
  have h: "0 < fst (gridsize som_line)" and w: "0 < snd (gridsize som_line)"
    by (simp_all add: som_line_def)
  from C5_bmu_activation_shrinks [OF som_line_shape som_line_positions h w som_line_dimension,
      of "1 / 2" 1]
  obtain s1 bi bj s2 s3 where run: "SOM_compute som_line [4] = (s1, None)"
    "learn_bmu s1 = Inr (bi, bj)" "SOM_learn s1 (1 / 2) 1 [4] = (s2, None)"
    "SOM_compute s2 [4] = (s3, None)"
    "y (som_map s3 ! bi ! bj) \<le> y (som_map s1 ! bi ! bj)"
    by auto
  from run(1) have s1: "s1 = som_line\<lparr>som_map := [[\<lparr>weights = [0], posx = 0, posy = 0, y = 4\<rparr>,
                              \<lparr>weights = [2], posx = 0, posy = 1, y = 2\<rparr>]],
               activitymap := [[4, 2]]\<rparr>"
    by (simp add: som_line_compute)
  with run(2) have b: "bi = 0" "bj = 1" by (simp_all add: som_line_bmu)
  have y1: "y (som_map s1 ! 0 ! 1) = 2" by (simp add: s1)
  with run(5) b have y3: "y (som_map s3 ! 0 ! 1) \<le> 2" by simp
  from run(1-4) b y1 y3 som_line_shape som_line_positions h w som_line_dimension
  show ?thesis by auto
qed

text \<open>
  The strict decrease of the claim fails when the winning unit already holds the input:
  the single unit with weights \<open>[0]\<close> and the input \<open>[0]\<close> give the activation \<open>0\<close>
  before and after learning with \<open>eta = 1/2\<close> and \<open>sigma = 1\<close>.
\<close>

theorem C5_counterexample:
  "SOM_compute som_dot [0] = (som_dot, None)
   \<and> learn_bmu som_dot = Inr (0, 0)
   \<and> SOM_learn som_dot (1 / 2) 1 [0] = (som_dot, None)
   \<and> y (som_map som_dot ! 0 ! 0) = 0
   \<and> \<not> y (som_map (fst (SOM_compute (fst (SOM_learn (fst (SOM_compute som_dot [0]))
                                            (1 / 2) 1 [0])) [0])) ! 0 ! 0)
        < y (som_map (fst (SOM_compute som_dot [0])) ! 0 ! 0)"
proof -
  have run1: "SOM_compute som_dot [0] = (som_dot, None)"
    by (simp add: SOM_compute_def som_dot_def compute_cell_def Neuron_compute_def
        broadcast_def linalg_norm_def)
  have bmu: "learn_bmu som_dot = Inr (0, 0)"
    by (simp add: learn_bmu_def som_dot_def argmin_def unravel_index_def)
  have run2: "SOM_learn som_dot (1 / 2) 1 [0] = (som_dot, None)"
    by (simp add: SOM_learn_def bmu)
       (simp add: som_dot_def learn_cell_def Neuron_learn_def broadcast_def assign_slice_def)
  have y0: "y (som_map som_dot ! 0 ! 0) = 0" by (simp add: som_dot_def)
  from run1 bmu run2 y0 show ?thesis by simp
qed

subsection \<open>Training\<close>

lemma foreach_train_count:
  assumes "foreach is (train_step eta sigma samples nsamples randint) st = (st', None)"
  shows "snd st' = snd st + length is"
  using assms
proof (induction "is" arbitrary: st)
  case Nil
  then show ?case by simp
next
  case (Cons i "is")
  obtain st1 r where step: "train_step eta sigma samples nsamples randint i st = (st1, r)"
    by (cases "train_step eta sigma samples nsamples randint i st")
  with Cons.prems have r: "r = None" by (cases r) simp_all
  with step Cons.prems have rest:
    "foreach is (train_step eta sigma samples nsamples randint) st1 = (st', None)"
    by simp
  from step r have "snd st1 = Suc (snd st)"
    by (auto simp add: train_step_def Let_def split: if_splits prod.splits option.splits)
  with Cons.IH [OF rest] show ?case by simp
qed

lemma train_total:
  assumes "grid_shape s" and "0 < fst (gridsize s)" and "0 < snd (gridsize s)"
    and "\<forall>x \<in> set samples. dimension_ok s x"
    and n: "0 < nsamples" "nsamples \<le> length samples"
  shows "\<exists>s'. foreach is (train_step eta sigma samples nsamples randint) (s, k)
                 = ((s', k + length is), None)
              \<and> grid_shape s' \<and> gridsize s' = gridsize s
              \<and> (\<forall>x \<in> set samples. dimension_ok s' x)"
  using assms(1-4)
proof (induction "is" arbitrary: s k)
  case Nil
  then show ?case by simp
next
  case (Cons i "is")
  let ?x = "samples ! (randint k mod nsamples)"
  have idx: "randint k mod nsamples < length samples"
    using n by (meson mod_less_divisor less_le_trans)
  then have mem: "?x \<in> set samples" by simp
  with Cons.prems(4) have dim: "dimension_ok s ?x" by blast
  from compute_pass [OF Cons.prems(1) dim] obtain s1
    where run1: "SOM_compute s ?x = (s1, None)" and shape1: "grid_shape s1"
      and dim1: "dimension_ok s1 ?x" and gs1: "gridsize s1 = gridsize s"
      and dims1: "\<forall>x'. dimension_ok s1 x' = dimension_ok s x'"
    by blast
  from learn_pass [OF shape1 dim1, of eta sigma] Cons.prems(2,3) gs1 obtain s2
    where run2: "SOM_learn s1 eta sigma ?x = (s2, None)" and shape2: "grid_shape s2"
      and gs2: "gridsize s2 = gridsize s"
      and dims2: "\<forall>x'. dimension_ok s2 x' = dimension_ok s1 x'"
    by auto
  have step: "train_step eta sigma samples nsamples randint i (s, k) = ((s2, Suc k), None)"
    using n idx run1 run2 by (simp add: train_step_def Let_def)
  have "\<forall>x \<in> set samples. dimension_ok s2 x"
    using Cons.prems(4) dims1 dims2 by simp
  from Cons.IH [OF shape2 _ _ this, of "Suc k"] Cons.prems(2,3) gs2 obtain s'
    where "foreach is (train_step eta sigma samples nsamples randint) (s2, Suc k)
             = ((s', Suc k + length is), None)"
      and "grid_shape s'" and "gridsize s' = gridsize s2"
      and "\<forall>x \<in> set samples. dimension_ok s' x"
    by auto
  with step gs2 show ?case by simp
qed

text \<open>
  Claim C9, as the code has it. Every execution of the loop body draws one sample, and
  a run with parameter \<open>N\<close> that raises nothing has drawn \<open>N + 1\<close> samples; on a map of
  shape \<open>gridsize\<close> with at least one unit and samples of the map's dimension the run
  raises nothing. A run with \<open>N = 0\<close> is one execution of the body: one pass of
  \<^verbatim>\<open>compute\<close> and one pass of \<^verbatim>\<open>learn\<close>, after which (for \<open>sigma \<noteq> 0\<close>) every unit
  is the result of \<^verbatim>\<open>Neuron.learn\<close> on that unit, its weights rewritten by the rule
  \<open>w + eta * h * (x - w)\<close>. The value written can be the old one.
\<close>

theorem C9_training_loop:
  "(train N eta sigma samples nsamples randint s = ((s', d), None) \<longrightarrow> d = N + 1)
   \<and> (grid_shape s \<and> 0 < fst (gridsize s) \<and> 0 < snd (gridsize s) \<and> 0 < nsamples
        \<and> nsamples \<le> length samples \<and> (\<forall>x \<in> set samples. dimension_ok s x)
        \<and> sigma \<noteq> 0 \<longrightarrow>
       (\<exists>s2. train N eta sigma samples nsamples randint s = ((s2, N + 1), None)))
   \<and> train 0 eta sigma samples nsamples randint s
        = train_step eta sigma samples nsamples randint 0 (s, 0)
   \<and> (grid_shape s \<and> 0 < fst (gridsize s) \<and> 0 < snd (gridsize s) \<and> 0 < nsamples
        \<and> randint 0 mod nsamples < length samples
        \<and> dimension_ok s (samples ! (randint 0 mod nsamples)) \<and> sigma \<noteq> 0 \<longrightarrow>
       (\<exists>s1 bi bj s2.
           SOM_compute s (samples ! (randint 0 mod nsamples)) = (s1, None)
           \<and> learn_bmu s1 = Inr (bi, bj)
           \<and> SOM_learn s1 eta sigma (samples ! (randint 0 mod nsamples)) = (s2, None)
           \<and> train 0 eta sigma samples nsamples randint s = ((s2, 1), None)
           \<and> (\<forall>i<fst (gridsize s). \<forall>j<snd (gridsize s).
                 Neuron_learn (som_map s1 ! i ! j) eta sigma (int bi) (int bj)
                     (samples ! (randint 0 mod nsamples))
                   = Inr (som_map s2 ! i ! j)
                 \<and> weights (som_map s2 ! i ! j) =
                     map2 (\<lambda>w xv. w + eta
                             * exp (- real_of_int ((posx (som_map s ! i ! j) - int bi)\<^sup>2
                                                  + (posy (som_map s ! i ! j) - int bj)\<^sup>2)
                                    / (2 * sigma * sigma))
                             * (xv - w))
                       (weights (som_map s ! i ! j)) (samples ! (randint 0 mod nsamples)))))"
proof -
  let ?x = "samples ! (randint 0 mod nsamples)"
  let ?H = "fst (gridsize s)" and ?W = "snd (gridsize s)"
  have count: "d = N + 1" if "train N eta sigma samples nsamples randint s = ((s', d), None)"
    using foreach_train_count [of "[0..<N + 1]" eta sigma samples nsamples randint "(s, 0)" "(s', d)"]
      that
    by (simp add: train_def)
  have one: "train 0 eta sigma samples nsamples randint s
        = train_step eta sigma samples nsamples randint 0 (s, 0)"
    by (simp add: train_def foreach_single del: foreach.simps)
  have pass: "\<exists>s1 bi bj s2.
           SOM_compute s ?x = (s1, None) \<and> learn_bmu s1 = Inr (bi, bj)
           \<and> SOM_learn s1 eta sigma ?x = (s2, None)
           \<and> train 0 eta sigma samples nsamples randint s = ((s2, 1), None)
           \<and> (\<forall>i<?H. \<forall>j<?W.
                 Neuron_learn (som_map s1 ! i ! j) eta sigma (int bi) (int bj) ?x
                   = Inr (som_map s2 ! i ! j)
                 \<and> weights (som_map s2 ! i ! j) =
                     map2 (\<lambda>w xv. w + eta
                             * exp (- real_of_int ((posx (som_map s ! i ! j) - int bi)\<^sup>2
                                                  + (posy (som_map s ! i ! j) - int bj)\<^sup>2)
                                    / (2 * sigma * sigma))
                             * (xv - w))
                       (weights (som_map s ! i ! j)) ?x)"
    if shape: "grid_shape s" and h: "0 < ?H" and w: "0 < ?W" and n: "0 < nsamples"
      and idx: "randint 0 mod nsamples < length samples" and dim: "dimension_ok s ?x"
  proof -
    from compute_pass [OF shape dim] obtain s1
      where run1: "SOM_compute s ?x = (s1, None)" and shape1: "grid_shape s1"
        and dim1: "dimension_ok s1 ?x" and gs1: "gridsize s1 = gridsize s"
        and cells1: "\<forall>i<?H. \<forall>j<?W. som_map s1 ! i ! j =
             (som_map s ! i ! j)\<lparr>y := linalg_norm (map2 (-) (weights (som_map s ! i ! j)) ?x)\<rparr>"
      by blast
    from learn_pass [OF shape1 dim1, of eta sigma] h w gs1 obtain bi bj s2
      where bmu: "learn_bmu s1 = Inr (bi, bj)"
        and run2: "SOM_learn s1 eta sigma ?x = (s2, None)"
        and cells2: "\<forall>i<?H. \<forall>j<?W.
             Neuron_learn (som_map s1 ! i ! j) eta sigma (int bi) (int bj) ?x
               = Inr (som_map s2 ! i ! j)
             \<and> som_map s2 ! i ! j =
             (som_map s1 ! i ! j)\<lparr>weights :=
                map2 (\<lambda>w xv. w + eta
                        * exp (- real_of_int ((posx (som_map s1 ! i ! j) - int bi)\<^sup>2
                                             + (posy (som_map s1 ! i ! j) - int bj)\<^sup>2)
                               / (2 * sigma * sigma))
                        * (xv - w))
                  (weights (som_map s1 ! i ! j)) ?x\<rparr>"
      by auto
    have run: "train 0 eta sigma samples nsamples randint s = ((s2, 1), None)"
      using n idx run1 run2 by (simp add: one train_step_def Let_def)
    have cells: "Neuron_learn (som_map s1 ! i ! j) eta sigma (int bi) (int bj) ?x
                   = Inr (som_map s2 ! i ! j)
                 \<and> weights (som_map s2 ! i ! j) =
                     map2 (\<lambda>w xv. w + eta
                             * exp (- real_of_int ((posx (som_map s ! i ! j) - int bi)\<^sup>2
                                                  + (posy (som_map s ! i ! j) - int bj)\<^sup>2)
                                    / (2 * sigma * sigma))
                             * (xv - w))
                       (weights (som_map s ! i ! j)) ?x"
      if "i < ?H" "j < ?W" for i j
      using cells1 cells2 that by simp
    from run1 bmu run2 run cells show ?thesis by blast
  qed
  have total: "\<exists>s2. train N eta sigma samples nsamples randint s = ((s2, N + 1), None)"
    if "grid_shape s" "0 < ?H" "0 < ?W" "0 < nsamples" "nsamples \<le> length samples"
      "\<forall>x \<in> set samples. dimension_ok s x"
    using train_total [OF that(1,2,3,6,4,5), of "[0..<N + 1]" eta sigma randint 0]
    by (auto simp add: train_def)
  from count total one pass show ?thesis by blast
qed

theorem C9_training_loop_witness:
  "grid_shape som_line \<and> 0 < fst (gridsize som_line) \<and> 0 < snd (gridsize som_line)
   \<and> (0::nat) < 1 \<and> (1::nat) \<le> length [[4::real]]
   \<and> (0::nat) mod 1 < length [[4::real]]
   \<and> dimension_ok som_line ([[4]] ! (0 mod 1)) \<and> (1::real) \<noteq> 0
   \<and> (\<exists>s2. train 0 (1 / 2) 1 [[4]] 1 (\<lambda>k. 0) som_line = ((s2, 0 + 1), None)
          \<and> weights (som_map s2 ! 0 ! 1) = [3])
   \<and> (\<exists>s2. train 2 (1 / 2) 1 [[4]] 1 (\<lambda>k. 0) som_line = ((s2, 2 + 1), None))"
proof -
  have h: "0 < fst (gridsize som_line)" and w: "0 < snd (gridsize som_line)"
    by (simp_all add: som_line_def)
  have gs: "gridsize som_line = (1, 2)" by (simp add: som_line_def)
  have x: "[[4::real]] ! (0 mod 1) = [4]" by simp
  have hyp1: "grid_shape som_line \<and> 0 < fst (gridsize som_line) \<and> 0 < snd (gridsize som_line)
      \<and> (0::nat) < 1 \<and> (0::nat) mod 1 < length [[4::real]]
      \<and> dimension_ok som_line ([[4]] ! (0 mod 1)) \<and> (1::real) \<noteq> 0"
    using som_line_shape h w som_line_dimension by simp
  have hyp2: "grid_shape som_line \<and> 0 < fst (gridsize som_line) \<and> 0 < snd (gridsize som_line)
      \<and> (0::nat) < 1 \<and> (1::nat) \<le> length [[4::real]]
      \<and> (\<forall>x \<in> set [[4::real]]. dimension_ok som_line x) \<and> (1::real) \<noteq> 0"
    using som_line_shape h w som_line_dimension by simp
  note thm0 = C9_training_loop [of 0 "1 / 2" 1 "[[4]]" 1 "\<lambda>k. 0" som_line]
  note thm2 = C9_training_loop [of 2 "1 / 2" 1 "[[4]]" 1 "\<lambda>k. 0" som_line]
  from thm0 [THEN conjunct2, THEN conjunct2, THEN conjunct2, THEN mp, OF hyp1]
  obtain s1 bi bj s2 where run1: "SOM_compute som_line ([[4]] ! (0 mod 1)) = (s1, None)"
    and bmu: "learn_bmu s1 = Inr (bi, bj)"
    and run: "train 0 (1 / 2) 1 [[4]] 1 (\<lambda>k. 0) som_line = ((s2, 1), None)"
    and cells: "\<forall>i<fst (gridsize som_line). \<forall>j<snd (gridsize som_line).
       Neuron_learn (som_map s1 ! i ! j) (1 / 2) 1 (int bi) (int bj) ([[4]] ! (0 mod 1))
         = Inr (som_map s2 ! i ! j)
       \<and> weights (som_map s2 ! i ! j) =
         map2 (\<lambda>w xv. w + 1 / 2
                 * exp (- real_of_int ((posx (som_map som_line ! i ! j) - int bi)\<^sup>2
                                      + (posy (som_map som_line ! i ! j) - int bj)\<^sup>2)
                        / (2 * 1 * 1))
                 * (xv - w))
           (weights (som_map som_line ! i ! j)) ([[4]] ! (0 mod 1))"
    by blast
  from run1 have s1: "s1 = som_line\<lparr>som_map := [[\<lparr>weights = [0], posx = 0, posy = 0, y = 4\<rparr>,
                              \<lparr>weights = [2], posx = 0, posy = 1, y = 2\<rparr>]],
               activitymap := [[4, 2]]\<rparr>"
    by (simp add: som_line_compute)
  with bmu have b: "bi = 0" "bj = 1" by (simp_all add: som_line_bmu)
  have "(0::nat) < fst (gridsize som_line)" "(1::nat) < snd (gridsize som_line)"
    by (simp_all add: gs)
  with cells have "weights (som_map s2 ! 0 ! 1) =
         map2 (\<lambda>w xv. w + 1 / 2
                 * exp (- real_of_int ((posx (som_map som_line ! 0 ! 1) - int bi)\<^sup>2
                                      + (posy (som_map som_line ! 0 ! 1) - int bj)\<^sup>2)
                        / (2 * 1 * 1))
                 * (xv - w))
           (weights (som_map som_line ! 0 ! 1)) ([[4]] ! (0 mod 1))"
    by blast
  then have "weights (som_map s2 ! 0 ! 1) = [3]"
    by (simp add: b som_line_def)
  with run have one: "\<exists>s2. train 0 (1 / 2) 1 [[4]] 1 (\<lambda>k. 0) som_line = ((s2, 0 + 1), None)
          \<and> weights (som_map s2 ! 0 ! 1) = [3]"
    by simp
  from thm2 [THEN conjunct2, THEN conjunct1, THEN mp, OF hyp2]
  have three: "\<exists>s2. train 2 (1 / 2) 1 [[4]] 1 (\<lambda>k. 0) som_line = ((s2, 2 + 1), None)" .
  from one three hyp1 show ?thesis by simp
qed

text \<open>
  The run need not change the weights: on the map with the single unit of weights
  \<open>[0]\<close> and the single sample \<open>[0]\<close>, a run with \<open>N = 0\<close> draws one sample, raises
  nothing and leaves the map as it was.
\<close>

theorem C9_counterexample:
  "train 0 (1 / 2) 1 [[0]] 1 first_sample som_dot = ((som_dot, 1), None)
   \<and> weights (som_map som_dot ! 0 ! 0) = [0]"
proof -
  have run1: "SOM_compute som_dot [0] = (som_dot, None)"
    by (simp add: SOM_compute_def som_dot_def compute_cell_def Neuron_compute_def
        broadcast_def linalg_norm_def)
  have bmu: "learn_bmu som_dot = Inr (0, 0)"
    by (simp add: learn_bmu_def som_dot_def argmin_def unravel_index_def)
  have run2: "SOM_learn som_dot (1 / 2) 1 [0] = (som_dot, None)"
    by (simp add: SOM_learn_def bmu)
       (simp add: som_dot_def learn_cell_def Neuron_learn_def broadcast_def assign_slice_def)
  have "train 0 (1 / 2) 1 [[0]] 1 first_sample som_dot = ((som_dot, 1), None)"
    by (simp add: train_def train_step_def first_sample_def run1 run2)
  then show ?thesis by (simp add: som_dot_def)
qed

end
